theory Spec2Isabelle
  imports Main "HOL-Library.AList" "HOL-Library.Sublist" "HOL-Library.Char_ord"
    "HOL-Library.List_Lexorder"
begin

section \<open>The session state controller of plainbox (plainbox/impl/ctrl.py)\<close>

text \<open>
  A shallow embedding of \<^verbatim>\<open>CheckBoxSessionStateController\<close> and of
  \<^verbatim>\<open>gen_rfc822_records_from_io_log\<close>. Python objects become records, the
  controller's methods become functions that take the objects they read and return the
  objects they change, an exception is the \<open>Inl\<close> of a sum, and what a method writes
  to the module's logger is returned as a list of log records.
  A method name that starts with an underscore loses it (\<open>_is_job_impacting_suspend\<close> is
  \<open>is_job_impacting_suspend\<close>); the job attribute \<open>id\<close> is the field \<open>job_id\<close>, since
  \<open>id\<close> is the identity function of HOL.
\<close>

subsection \<open>Exceptions and log records\<close>

datatype error =
  KeyError string
  | TypeError

datatype log_level = DEBUG | INFO | WARNING | ERROR | CRITICAL

text \<open>
  A log record: the level, the message as the source writes it (with its placeholders)
  and the arguments: a text, a job (given by its id) or a resource (given by its data).
\<close>

datatype log_arg =
  Text string
  | JobRef string
  | ResourceRef "(string \<times> string) list"

type_synonym log_record = "log_level \<times> string \<times> log_arg list"

subsection \<open>Jobs\<close>

text \<open>
  A resource expression exposes the list of the resource ids it mentions
  (\<open>expression.resource_id_list\<close>); a resource program is a list of expressions.
\<close>

record expression =
  expression_text :: string
  resource_id_list :: "string list"

type_synonym resource_program = "expression list"

text \<open>
  One entry of the JSON list of a job's \<open>siblings\<close> field, as
  \<open>json.loads(job.tr_siblings())\<close> gives it. Only its \<open>depends\<close> key is read:
  absent, a JSON string (then Python's \<open>in\<close> is a substring test) or a JSON list of
  strings (then \<open>in\<close> is membership).
\<close>

datatype json_depends = DependsText string | DependsList "string list"

record sibling_data =
  sibling_depends :: "json_depends option"

text \<open>
  The job definition class is not part of the sources; the record holds what the
  controller reads from a job. \<open>depends\<close>, \<open>after\<close>, \<open>salvage\<close> and \<open>before\<close> hold
  the elements of the sets that \<open>get_direct_dependencies()\<close>,
  \<open>get_after_dependencies()\<close>, \<open>get_salvage_dependencies()\<close> and
  \<open>get_before_dependencies()\<close> return; \<open>resource_program\<close> is what
  \<open>get_resource_program()\<close> returns (\<open>None\<close> without a requirement expression);
  \<open>resource_dependencies\<close> is what \<open>get_resource_dependencies()\<close> returns, \<open>None\<close>
  when it raises \<open>ResourceProgramError\<close>; \<open>flags\<close> is the text of the flags field
  (\<open>None\<close> when the job has none); \<open>siblings\<close> is the parsed siblings field (\<open>None\<close>
  when \<open>job.siblings\<close> is false); \<open>before_references\<close> is the set the linker fills.
\<close>

record job_definition =
  job_id :: string
  plugin :: string
  depends :: "string list"
  after :: "string list"
  salvage :: "string list"
  before :: "string list"
  resource_program :: "resource_program option"
  resource_dependencies :: "string list option"
  flags :: "string option"
  siblings :: "sibling_data list option"
  before_references :: "string set"

datatype DependencyType = DEPENDS | AFTER | RESOURCE | BEFORE

text \<open>
  Modelled from the spec: the constants of \<open>plainbox.suspend_consts.Suspend\<close>, which the
  controller uses and the sources do not contain: the ids of the two suspend checkpoint
  jobs and the flag that goes with each (the flag names are those of the docstring of
  \<open>_get_before_suspend_dependency_set\<close>).
\<close>

definition AUTO_JOB_ID :: string where
  "AUTO_JOB_ID = ''com.canonical.certification::suspend/suspend_advanced_auto''"

definition MANUAL_JOB_ID :: string where
  "MANUAL_JOB_ID = ''com.canonical.certification::suspend/suspend_advanced''"

definition AUTO_FLAG :: string where
  "AUTO_FLAG = ''also-after-suspend''"

definition MANUAL_FLAG :: string where
  "MANUAL_FLAG = ''also-after-suspend-manual''"

subsection \<open>The dependency set of a job\<close>

text \<open>
  \<open>suspend_job_id in sibling_data.get("depends", [])\<close>: a missing key gives the empty
  list, a string is searched for the id, a list must hold it.
\<close>

fun sibling_depends_on :: "string \<Rightarrow> sibling_data \<Rightarrow> bool" where
  "sibling_depends_on suspend_job_id sibling =
     (case sibling_depends sibling of
        None \<Rightarrow> False
      | Some (DependsText t) \<Rightarrow> sublist suspend_job_id t
      | Some (DependsList ids) \<Rightarrow> suspend_job_id \<in> set ids)"

text \<open>
  The dictionary lookup \<open>{AUTO_JOB_ID: AUTO_FLAG, MANUAL_JOB_ID: MANUAL_FLAG}.get(id)\<close>.
\<close>

definition expected_flag :: "string \<Rightarrow> string option" where
  "expected_flag suspend_job_id =
     (if suspend_job_id = MANUAL_JOB_ID then Some MANUAL_FLAG
      else if suspend_job_id = AUTO_JOB_ID then Some AUTO_FLAG
      else None)"

text \<open>
  \<open>job.flags and expected_flag in job.flags\<close> is read only when the flags text is not
  empty; there \<open>None in "..."\<close> raises \<open>TypeError\<close>, and a flag is searched for in the
  text. Then the siblings are searched, in order, for one that depends on the suspend
  job.
\<close>

definition is_job_impacting_suspend :: "string \<Rightarrow> job_definition \<Rightarrow> error + bool" where
  "is_job_impacting_suspend suspend_job_id j =
     (let in_siblings =
            (case siblings j of
               None \<Rightarrow> False
             | Some sibs \<Rightarrow> list_ex (sibling_depends_on suspend_job_id) sibs)
      in case flags j of
           None \<Rightarrow> Inr in_siblings
         | Some text \<Rightarrow>
             if text = [] then Inr in_siblings
             else (case expected_flag suspend_job_id of
                     None \<Rightarrow> Inl TypeError
                   | Some flag \<Rightarrow> if sublist flag text then Inr True else Inr in_siblings))"

text \<open>
  \<open>filter(p, job_list)\<close> with a predicate that may raise: the first exception ends the
  iteration.
\<close>

fun filter_impacting :: "string \<Rightarrow> job_definition list \<Rightarrow> error + job_definition list" where
  "filter_impacting suspend_job_id [] = Inr []"
| "filter_impacting suspend_job_id (j # js) =
     (case is_job_impacting_suspend suspend_job_id j of
        Inl e \<Rightarrow> Inl e
      | Inr keep \<Rightarrow>
          (case filter_impacting suspend_job_id js of
             Inl e \<Rightarrow> Inl e
           | Inr rest \<Rightarrow> Inr (if keep then j # rest else rest)))"

text \<open>
  \<open>job_list\<close> defaults to \<open>None\<close>, and \<open>filter(p, None)\<close> raises \<open>TypeError\<close>.
\<close>

definition get_before_suspend_dependency_set ::
  "string \<Rightarrow> job_definition list option \<Rightarrow> error + string set" where
  "get_before_suspend_dependency_set suspend_job_id job_list =
     (case job_list of
        None \<Rightarrow> Inl TypeError
      | Some js \<Rightarrow>
          (case filter_impacting suspend_job_id js of
             Inl e \<Rightarrow> Inl e
           | Inr suspend_deps_jobs \<Rightarrow> Inr (job_id ` set suspend_deps_jobs)))"

definition get_dependency_set ::
  "job_definition \<Rightarrow> job_definition list option \<Rightarrow> error + (DependencyType \<times> string) set" where
  "get_dependency_set j job_list =
     (let direct_deps = depends j;
          after_deps = after j;
          before_refs = before_references j;
          resource_deps = (case resource_dependencies j of None \<Rightarrow> [] | Some ds \<Rightarrow> ds)
      in case (if job_id j \<in> set [AUTO_JOB_ID, MANUAL_JOB_ID]
               then get_before_suspend_dependency_set (job_id j) job_list
               else Inr {}) of
           Inl e \<Rightarrow> Inl e
         | Inr suspend_deps \<Rightarrow>
             Inr (Pair DEPENDS ` set direct_deps
                  \<union> Pair RESOURCE ` set resource_deps
                  \<union> Pair AFTER ` set after_deps
                  \<union> Pair AFTER ` suspend_deps
                  \<union> Pair BEFORE ` before_refs))"

subsection \<open>Linking the before references\<close>

text \<open>
  \<open>job_map\<close> and \<open>global_job_map\<close> are dictionaries from job id to job. The method
  changes the \<open>before_references\<close> of jobs of \<open>job_map\<close>; the model returns the map
  with the changed jobs, and the records logged. The lookup \<open>job_map[dep_id]\<close> is
  written with its \<open>KeyError\<close>, although the test before it excludes it.
\<close>

definition before_missing_log :: "job_definition \<Rightarrow> string \<Rightarrow> log_record" where
  "before_missing_log j dep_id =
     (ERROR, ''Job {} has a before dependency on {} which does not exist'',
      [Text (job_id j), Text dep_id])"

definition before_inactive_log :: "job_definition \<Rightarrow> string \<Rightarrow> log_record" where
  "before_inactive_log j dep_id =
     (DEBUG, ''Job {} has a before dependency on {} which is not in the current test plan'',
      [Text (job_id j), Text dep_id])"

fun add_before_deps_loop ::
  "job_definition \<Rightarrow> string list \<Rightarrow> (string \<rightharpoonup> job_definition) \<Rightarrow>
   (string \<rightharpoonup> job_definition) \<Rightarrow> log_record list \<Rightarrow>
   error + ((string \<rightharpoonup> job_definition) \<times> log_record list)" where
  "add_before_deps_loop j [] job_map global_job_map logs = Inr (job_map, logs)"
| "add_before_deps_loop j (dep_id # rest) job_map global_job_map logs =
     (if global_job_map dep_id = None then
        add_before_deps_loop j rest job_map global_job_map
          (logs @ [before_missing_log j dep_id])
      else if job_map dep_id = None then
        add_before_deps_loop j rest job_map global_job_map
          (logs @ [before_inactive_log j dep_id])
      else
        (case job_map dep_id of
           None \<Rightarrow> Inl (KeyError dep_id)
         | Some d \<Rightarrow>
             add_before_deps_loop j rest
               (job_map(dep_id \<mapsto>
                  d\<lparr>before_references := insert (job_id j) (before_references d)\<rparr>))
               global_job_map logs))"

definition add_before_deps ::
  "job_definition \<Rightarrow> (string \<rightharpoonup> job_definition) \<Rightarrow> (string \<rightharpoonup> job_definition) \<Rightarrow>
   error + ((string \<rightharpoonup> job_definition) \<times> log_record list)" where
  "add_before_deps j job_map global_job_map =
     add_before_deps_loop j (before j) job_map global_job_map []"

text \<open>
  Modelled from the spec: the linker pass, whose code is not in the sources:
  \<open>add_before_deps\<close> runs once for each job of the selected job list, in order, on the
  same maps.
\<close>

fun add_before_deps_all ::
  "job_definition list \<Rightarrow> (string \<rightharpoonup> job_definition) \<Rightarrow> (string \<rightharpoonup> job_definition) \<Rightarrow>
   error + ((string \<rightharpoonup> job_definition) \<times> log_record list)" where
  "add_before_deps_all [] job_map global_job_map = Inr (job_map, [])"
| "add_before_deps_all (j # js) job_map global_job_map =
     (case add_before_deps j job_map global_job_map of
        Inl e \<Rightarrow> Inl e
      | Inr (job_map1, logs1) \<Rightarrow>
          (case add_before_deps_all js job_map1 global_job_map of
             Inl e \<Rightarrow> Inl e
           | Inr (job_map2, logs2) \<Rightarrow> Inr (job_map2, logs1 @ logs2)))"

text \<open>
  The dependency set of the job stored under an id of the active job map, after the linker
  pass over the job list.
\<close>

definition dependency_set_after_linking ::
  "job_definition list \<Rightarrow> (string \<rightharpoonup> job_definition) \<Rightarrow> (string \<rightharpoonup> job_definition) \<Rightarrow>
   string \<Rightarrow> job_definition list option \<Rightarrow> error + (DependencyType \<times> string) set" where
  "dependency_set_after_linking jobs job_map global_job_map some_id job_list =
     (case add_before_deps_all jobs job_map global_job_map of
        Inl e \<Rightarrow> Inl e
      | Inr (job_map', logs) \<Rightarrow>
          (case job_map' some_id of
             None \<Rightarrow> Inl (KeyError some_id)
           | Some j \<Rightarrow> get_dependency_set j job_list))"

subsection \<open>Results, inhibitors and the session state\<close>

text \<open>
  The outcomes of \<open>IJobResult\<close>; \<open>OUTCOME_NONE\<close> is Python's \<open>None\<close> and
  \<open>OUTCOME_PASS\<close> is the text \<open>"pass"\<close> that the resource step compares with.
\<close>

datatype outcome =
  OUTCOME_NONE
  | OUTCOME_PASS
  | OUTCOME_FAIL
  | OUTCOME_SKIP
  | OUTCOME_NOT_SUPPORTED
  | OUTCOME_NOT_IMPLEMENTED
  | OUTCOME_UNDECIDED
  | OUTCOME_CRASH

text \<open>
  One record of the I/O log of a result: the stream name (\<open>record[1]\<close>) and the bytes
  written (\<open>record[2]\<close>); the delay (\<open>record[0]\<close>) is never read and is left out.
\<close>

record io_log_record =
  stream_name :: string
  stream_data :: string

record job_result =
  outcome :: outcome
  io_log :: "io_log_record list"

datatype InhibitionCause =
  UNDESIRED
  | PENDING_DEP
  | FAILED_DEP
  | PENDING_RESOURCE
  | FAILED_RESOURCE
  | NOT_FAILED_DEP

record JobReadinessInhibitor =
  cause :: InhibitionCause
  related_job :: "job_definition option"
  related_expression :: "expression option"

record job_state =
  job :: job_definition
  result :: job_result
  readiness_inhibitor_list :: "JobReadinessInhibitor list"

text \<open>A resource is its data, \<open>Resource(data)\<close>: keys and values in the order parsed.\<close>

type_synonym resource = "(string \<times> string) list"

record template_unit =
  template_id :: string
  resource_id :: string

text \<open>
  What \<open>unit.check()\<close> returns: a list of issues, each with a severity and a text, or the
  exception \<open>MissingParam\<close> with the name of the parameter.
\<close>

datatype Severity = Severity_error | Severity_warning | Severity_advice

record issue =
  severity :: Severity
  issue_text :: string

datatype check_result = Issues "issue list" | MissingParam string

datatype validation_error = IssueError issue | MissingParamError string

text \<open>
  The units of a session: a job, a template, the placeholder of an invalid generated job
  and any other unit. Modelled from the spec: \<open>InvalidJob.from_unit(unit, errors)\<close>, which
  the sources do not contain, is the constructor \<open>InvalidJob\<close>: the placeholder keeps the
  unit it stands for (so its id) and the validation errors.
\<close>

datatype unit =
  JobDefinition job_definition
  | TemplateUnit template_unit
  | InvalidJob job_definition "validation_error list"
  | OtherUnit string

fun unit_id :: "unit \<Rightarrow> string" where
  "unit_id (JobDefinition j) = job_id j"
| "unit_id (TemplateUnit t) = template_id t"
| "unit_id (InvalidJob j errors) = job_id j"
| "unit_id (OtherUnit name) = name"

text \<open>
  The calls the controller makes on the session whose code is not in the sources and
  whose effect is outside the controller; the session state records them in order.
\<close>

datatype session_call =
  on_job_state_map_changed
  | on_job_result_changed job_definition job_result
  | recompute_job_readiness

text \<open>
  The session state: \<open>job_state_map\<close> and \<open>resource_map\<close> are dictionaries, kept as
  association lists in insertion order (the order in which \<open>values()\<close> iterates), with
  each key once; \<open>metadata_flags\<close> is \<open>session_state.metadata.flags\<close>; \<open>provenance\<close>
  records for each unit added the id of the job it came from (\<open>via\<close>).
\<close>

record session_state =
  job_state_map :: "(string \<times> job_state) list"
  resource_map :: "(string \<times> resource list) list"
  unit_list :: "unit list"
  metadata_flags :: "string set"
  provenance :: "(unit \<times> string) list"
  calls :: "session_call list"

text \<open>
  Modelled from the spec: the name of the session flag that selects strict template
  expansion, a constant of the session metadata that the sources do not contain.
\<close>

definition FLAG_FEATURE_STRICT_TEMPLATE_EXPANSION :: string where
  "FLAG_FEATURE_STRICT_TEMPLATE_EXPANSION = ''strict_template_expansion''"

text \<open>
  What \<open>prog.evaluate_or_raise(resource_map)\<close> does: it returns, or it raises one of two
  exceptions that carry the expression.
\<close>

datatype evaluation =
  Evaluated
  | ExpressionCannotEvaluateError expression
  | ExpressionFailedError expression

record rfc822_record =
  data :: "(string \<times> string) list"

datatype syntax_error = RFC822SyntaxError string

text \<open>
  The parts of plainbox that the controller calls and the sources do not contain, taken
  as parameters: the decoding of bytes as UTF-8 with replacement; the generator
  \<open>gen_rfc822_records\<close>, given by the records it yields and the exception that ends it,
  if any (a generator that has raised yields nothing more); the evaluation of a resource
  program; the validation of a generated job; the instantiation of a template for one
  resource.
\<close>

record env =
  decode :: "string \<Rightarrow> string"
  gen_rfc822_records :: "string list \<Rightarrow> rfc822_record list \<times> syntax_error option"
  evaluate_or_raise :: "resource_program \<Rightarrow> (string \<times> resource list) list \<Rightarrow> evaluation"
  check :: "job_definition \<Rightarrow> check_result"
  instantiate_one :: "template_unit \<Rightarrow> resource \<Rightarrow> bool \<Rightarrow> job_definition"

subsection \<open>Readiness inhibitors\<close>

text \<open>The dictionary lookup \<open>session_state.job_state_map[job_id]\<close>.\<close>

definition job_state_of :: "session_state \<Rightarrow> string \<Rightarrow> error + job_state" where
  "job_state_of s some_id =
     (case map_of (job_state_map s) some_id of
        None \<Rightarrow> Inl (KeyError some_id)
      | Some st \<Rightarrow> Inr st)"

text \<open>
  A \<open>for\<close> loop that appends inhibitors to a list: \<open>body\<close> gives what one iteration
  appends, or the exception it raises, which ends the loop.
\<close>

fun for_each :: "('a \<Rightarrow> error + 'b list) \<Rightarrow> 'a list \<Rightarrow> error + 'b list" where
  "for_each body [] = Inr []"
| "for_each body (x # xs) =
     (case body x of
        Inl e \<Rightarrow> Inl e
      | Inr appended \<Rightarrow>
          (case for_each body xs of
             Inl e \<Rightarrow> Inl e
           | Inr rest \<Rightarrow> Inr (appended @ rest)))"

text \<open>The bodies of the loops of \<open>get_inhibitor_list\<close>, in the order of the source.\<close>

definition pending_resource_step ::
  "session_state \<Rightarrow> expression \<Rightarrow> string \<Rightarrow> error + JobReadinessInhibitor list" where
  "pending_resource_step s exc_expression some_resource_id =
     (case job_state_of s some_resource_id of
        Inl e \<Rightarrow> Inl e
      | Inr st \<Rightarrow>
          if outcome (result st) = OUTCOME_PASS then Inr []
          else Inr [\<lparr>cause = PENDING_RESOURCE, related_job = Some (job st),
                     related_expression = Some exc_expression\<rparr>])"

definition failed_resource_step ::
  "session_state \<Rightarrow> expression \<Rightarrow> string \<Rightarrow> error + JobReadinessInhibitor list" where
  "failed_resource_step s exc_expression some_resource_id =
     (case job_state_of s some_resource_id of
        Inl e \<Rightarrow> Inl e
      | Inr st \<Rightarrow>
          Inr [\<lparr>cause = FAILED_RESOURCE, related_job = Some (job st),
                related_expression = Some exc_expression\<rparr>])"

definition direct_dependency_step ::
  "session_state \<Rightarrow> string \<Rightarrow> error + JobReadinessInhibitor list" where
  "direct_dependency_step s dep_id =
     (case job_state_of s dep_id of
        Inl e \<Rightarrow> Inl e
      | Inr dep_job_state \<Rightarrow>
          if outcome (result dep_job_state) = OUTCOME_NONE then
            Inr [\<lparr>cause = PENDING_DEP, related_job = Some (job dep_job_state),
                  related_expression = None\<rparr>]
          else if outcome (result dep_job_state) \<noteq> OUTCOME_PASS then
            Inr [\<lparr>cause = FAILED_DEP, related_job = Some (job dep_job_state),
                  related_expression = None\<rparr>]
          else Inr [])"

definition after_dependency_step ::
  "session_state \<Rightarrow> string \<Rightarrow> error + JobReadinessInhibitor list" where
  "after_dependency_step s dep_id =
     (case job_state_of s dep_id of
        Inl e \<Rightarrow> Inl e
      | Inr dep_job_state \<Rightarrow>
          if outcome (result dep_job_state) = OUTCOME_NONE then
            Inr [\<lparr>cause = PENDING_DEP, related_job = Some (job dep_job_state),
                  related_expression = None\<rparr>]
          else Inr [])"

definition salvage_dependency_step ::
  "session_state \<Rightarrow> string \<Rightarrow> error + JobReadinessInhibitor list" where
  "salvage_dependency_step s dep_id =
     (case job_state_of s dep_id of
        Inl e \<Rightarrow> Inl e
      | Inr dep_job_state \<Rightarrow>
          if outcome (result dep_job_state) \<noteq> OUTCOME_FAIL then
            Inr [\<lparr>cause = NOT_FAILED_DEP, related_job = Some (job dep_job_state),
                  related_expression = None\<rparr>]
          else Inr [])"

text \<open>
  \<open>_get_suspend_inhibitor_list\<close>: the run list holds the jobs of the states that do not
  carry the \<open>UNDESIRED\<close> inhibitor; \<open>filter\<close> is lazy, so each job of the run list is
  tested and, when it passes, looked up before the next one is tested.
\<close>

definition undesired_inhibitor :: JobReadinessInhibitor where
  "undesired_inhibitor =
     \<lparr>cause = UNDESIRED, related_job = None, related_expression = None\<rparr>"

definition suspend_inhibitor_step ::
  "session_state \<Rightarrow> string \<Rightarrow> job_definition \<Rightarrow> error + JobReadinessInhibitor list" where
  "suspend_inhibitor_step s suspend_job_id j =
     (case is_job_impacting_suspend suspend_job_id j of
        Inl e \<Rightarrow> Inl e
      | Inr False \<Rightarrow> Inr []
      | Inr True \<Rightarrow>
          (case job_state_of s (job_id j) of
             Inl e \<Rightarrow> Inl e
           | Inr st \<Rightarrow>
               if outcome (result st) = OUTCOME_NONE then
                 Inr [\<lparr>cause = PENDING_DEP, related_job = Some j,
                       related_expression = None\<rparr>]
               else Inr []))"

definition get_suspend_inhibitor_list ::
  "session_state \<Rightarrow> job_definition \<Rightarrow> error + JobReadinessInhibitor list" where
  "get_suspend_inhibitor_list s suspend_job =
     (let run_list =
            map (\<lambda>(k, state). job state)
              (filter (\<lambda>(k, state). undesired_inhibitor \<notin> set (readiness_inhibitor_list state))
                 (job_state_map s))
      in for_each (suspend_inhibitor_step s (job_id suspend_job)) run_list)"

text \<open>
  The resource step of \<open>get_inhibitor_list\<close>: nothing without a program or when the
  program evaluates; otherwise one loop over the resource ids of the expression that
  the exception carries.
\<close>

definition resource_inhibitors ::
  "env \<Rightarrow> session_state \<Rightarrow> job_definition \<Rightarrow> error + JobReadinessInhibitor list" where
  "resource_inhibitors ev s j =
     (case resource_program j of
        None \<Rightarrow> Inr []
      | Some prog \<Rightarrow>
          (case evaluate_or_raise ev prog (resource_map s) of
             Evaluated \<Rightarrow> Inr []
           | ExpressionCannotEvaluateError exc_expression \<Rightarrow>
               for_each (pending_resource_step s exc_expression)
                 (resource_id_list exc_expression)
           | ExpressionFailedError exc_expression \<Rightarrow>
               for_each (failed_resource_step s exc_expression)
                 (resource_id_list exc_expression)))"

text \<open>
  \<open>sorted(...)\<close> of a set of ids is \<open>sort (remdups ...)\<close> of its elements: each id
  once, in increasing order.
\<close>

definition get_inhibitor_list ::
  "env \<Rightarrow> session_state \<Rightarrow> job_definition \<Rightarrow> error + JobReadinessInhibitor list" where
  "get_inhibitor_list ev s j =
     (case resource_inhibitors ev s j of
        Inl e \<Rightarrow> Inl e
      | Inr from_resources \<Rightarrow>
     (case for_each (direct_dependency_step s) (sort (remdups (depends j))) of
        Inl e \<Rightarrow> Inl e
      | Inr from_depends \<Rightarrow>
     (case for_each (after_dependency_step s) (sort (remdups (after j))) of
        Inl e \<Rightarrow> Inl e
      | Inr from_after \<Rightarrow>
     (case for_each (salvage_dependency_step s) (sort (remdups (salvage j))) of
        Inl e \<Rightarrow> Inl e
      | Inr from_salvage \<Rightarrow>
     (case (if job_id j \<in> set [AUTO_JOB_ID, MANUAL_JOB_ID]
            then get_suspend_inhibitor_list s j else Inr []) of
        Inl e \<Rightarrow> Inl e
      | Inr from_suspend \<Rightarrow>
          Inr (from_resources @ from_depends @ from_after @ from_salvage @ from_suspend))))))"

subsection \<open>Observing a result\<close>

text \<open>
  Modelled from the spec: \<open>SessionState.set_resource_list\<close>, which the sources do not
  contain: the entry of the resource id is replaced wholesale with the new list.
\<close>

definition set_resource_list :: "session_state \<Rightarrow> string \<Rightarrow> resource list \<Rightarrow> session_state" where
  "set_resource_list s some_resource_id resource_list =
     s\<lparr>resource_map := AList.update some_resource_id resource_list (resource_map s)\<rparr>"

text \<open>
  Modelled from the spec: \<open>SessionState.add_unit\<close>, which the sources do not contain: the
  unit is inserted into the unit collection of the session, with the job it came from,
  and the readiness is recomputed only when asked.
\<close>

definition add_unit :: "session_state \<Rightarrow> unit \<Rightarrow> job_definition \<Rightarrow> bool \<Rightarrow> session_state" where
  "add_unit s new_unit via recompute =
     s\<lparr>unit_list := unit_list s @ [new_unit],
       provenance := provenance s @ [(new_unit, job_id via)],
       calls := calls s @ (if recompute then [recompute_job_readiness] else [])\<rparr>"

text \<open>
  Modelled from the spec: \<open>TemplateUnit.instantiate_all\<close>, which the sources do not
  contain: one candidate job definition for each resource record, in order.
\<close>

definition instantiate_all ::
  "env \<Rightarrow> template_unit \<Rightarrow> resource list \<Rightarrow> bool \<Rightarrow> job_definition list" where
  "instantiate_all ev template resource_list fake_resources =
     map (\<lambda>r. instantiate_one ev template r fake_resources) resource_list"

text \<open>
  A generator is the list of what it does, in order: the items it yields and the records
  it logs.
\<close>

datatype 'a gen_event = Yield 'a | Log log_record

text \<open>The lines that the parser reads: the decoded data of the stdout records.\<close>

definition line_gen :: "env \<Rightarrow> job_result \<Rightarrow> string list" where
  "line_gen ev r =
     map (\<lambda>record. decode ev (stream_data record))
       (filter (\<lambda>record. stream_name record = ''stdout'') (io_log r))"

definition gen_rfc822_records_from_io_log ::
  "env \<Rightarrow> job_definition \<Rightarrow> job_result \<Rightarrow> rfc822_record gen_event list" where
  "gen_rfc822_records_from_io_log ev j r =
     (case gen_rfc822_records ev (line_gen ev r) of
           (records, raised) \<Rightarrow>
             Log (DEBUG, ''processing output from a job: %r'', [JobRef (job_id j)])
             # map Yield records
             @ (case raised of
                  None \<Rightarrow> []
                | Some (RFC822SyntaxError exc) \<Rightarrow>
                    [Log (WARNING, ''local script %s returned invalid RFC822 data: %s'',
                          [Text (job_id j), Text exc])]))"

text \<open>
  The loop of \<open>_parse_and_store_resource\<close> over the generator: a record becomes a
  resource, appended to the new list and logged.
\<close>

fun store_records ::
  "job_definition \<Rightarrow> rfc822_record gen_event list \<Rightarrow> resource list \<times> log_record list" where
  "store_records j [] = ([], [])"
| "store_records j (Yield record # events) =
     (case store_records j events of
        (new_resource_list, logs) \<Rightarrow>
          (data record # new_resource_list,
           (DEBUG, ''Storing resource record %r: %s'',
            [Text (job_id j), ResourceRef (data record)]) # logs))"
| "store_records j (Log l # events) =
     (case store_records j events of
        (new_resource_list, logs) \<Rightarrow> (new_resource_list, l # logs))"

definition parse_and_store_resource ::
  "env \<Rightarrow> session_state \<Rightarrow> job_definition \<Rightarrow> job_result \<Rightarrow> session_state \<times> log_record list" where
  "parse_and_store_resource ev s j r =
     (if outcome r = OUTCOME_NONE then (s, [])
      else
        (case store_records j (gen_rfc822_records_from_io_log ev j r) of
           (new_resource_list, logs) \<Rightarrow>
             (set_resource_list s (job_id j)
                (if new_resource_list = [] then [[]] else new_resource_list),
              logs)))"

definition filter_invalid_log :: "env \<Rightarrow> job_definition \<Rightarrow> bool \<times> log_record list" where
  "filter_invalid_log ev u =
     (case check ev u of
        MissingParam parameter \<Rightarrow>
          (False,
           [(CRITICAL, ''Ignoring %s with missing template parameter %s'',
             [Text (job_id u), Text parameter])])
      | Issues check_result \<Rightarrow>
          (let errors = filter (\<lambda>c. severity c = Severity_error) check_result;
               warnings = filter (\<lambda>c. severity c = Severity_warning) check_result;
               warned = map (\<lambda>c. (WARNING, issue_text c, [])) warnings
           in if errors = [] then (True, warned)
              else (False,
                    warned @ map (\<lambda>c. (ERROR, issue_text c, [])) errors
                    @ [(CRITICAL, ''Ignoring invalid generated job %s'', [Text (job_id u)])])))"

definition wrap_invalid_units :: "env \<Rightarrow> job_definition \<Rightarrow> unit \<times> log_record list" where
  "wrap_invalid_units ev u =
     (case check ev u of
        MissingParam parameter \<Rightarrow> (InvalidJob u [MissingParamError parameter], [])
      | Issues check_result \<Rightarrow>
          (let errors = filter (\<lambda>c. severity c = Severity_error) check_result;
               warnings = filter (\<lambda>c. severity c = Severity_warning) check_result;
               warned = map (\<lambda>c. (WARNING, issue_text c, [])) warnings
           in if errors = [] then (JobDefinition u, warned)
              else (InvalidJob u (map IssueError errors), warned)))"

text \<open>
  \<open>_instantiate_templates\<close>. The candidates of the templates bound to the job, template
  by template; \<open>map\<close> of \<open>_wrap_invalid_units\<close> in strict mode, \<open>filter\<close> of
  \<open>_filter_invalid_log\<close> otherwise; each new unit added with \<open>recompute=False\<close>; one
  recomputation at the end. The source scans the unit list lazily while it adds units;
  the units it adds are jobs and placeholders, never templates, so the scan finds the
  templates that the unit list held at the start.
\<close>

definition template_units :: "session_state \<Rightarrow> job_definition \<Rightarrow> template_unit list" where
  "template_units s j =
     concat (map (\<lambda>u. case u of
                         TemplateUnit t \<Rightarrow> if resource_id t = job_id j then [t] else []
                       | _ \<Rightarrow> [])
                 (unit_list s))"

definition new_units ::
  "env \<Rightarrow> session_state \<Rightarrow> job_definition \<Rightarrow> resource list \<Rightarrow> bool \<Rightarrow> job_definition list" where
  "new_units ev s j parsed_resource fake_resources =
     concat (map (\<lambda>template_unit.
                    instantiate_all ev template_unit parsed_resource fake_resources)
                 (template_units s j))"

definition instantiate_templates ::
  "env \<Rightarrow> session_state \<Rightarrow> job_definition \<Rightarrow> job_result \<Rightarrow> bool \<Rightarrow>
   error + (session_state \<times> log_record list)" where
  "instantiate_templates ev s j r fake_resources =
     (if outcome r = OUTCOME_NONE then Inr (s, [])
      else
        (case map_of (resource_map s) (job_id j) of
           None \<Rightarrow> Inl (KeyError (job_id j))
         | Some parsed_resource \<Rightarrow>
             (let candidates = new_units ev s j parsed_resource fake_resources;
                  checked =
                    (if FLAG_FEATURE_STRICT_TEMPLATE_EXPANSION \<in> metadata_flags s
                     then map (\<lambda>u. case wrap_invalid_units ev u of
                                      (new_unit, logs) \<Rightarrow> ([new_unit], logs)) candidates
                     else map (\<lambda>u. case filter_invalid_log ev u of
                                      (keep, logs) \<Rightarrow>
                                        (if keep then [JobDefinition u] else [], logs))
                            candidates);
                  s' = foldl (\<lambda>s new_unit. add_unit s new_unit j False) s
                         (concat (map fst checked))
              in Inr (s'\<lparr>calls := calls s' @ [recompute_job_readiness]\<rparr>,
                      concat (map snd checked)))))"

definition process_resource_result ::
  "env \<Rightarrow> session_state \<Rightarrow> job_definition \<Rightarrow> job_result \<Rightarrow> bool \<Rightarrow>
   error + (session_state \<times> log_record list)" where
  "process_resource_result ev s j r fake_resources =
     (case parse_and_store_resource ev s j r of
        (s1, logs1) \<Rightarrow>
          (case map_of (resource_map s1) (job_id j) of
             None \<Rightarrow> Inl (KeyError (job_id j))
           | Some stored \<Rightarrow>
               if stored \<noteq> [[]] then
                 (case instantiate_templates ev s1 j r fake_resources of
                    Inl e \<Rightarrow> Inl e
                  | Inr (s2, logs2) \<Rightarrow> Inr (s2, logs1 @ logs2))
               else Inr (s1, logs1)))"

definition observe_result ::
  "env \<Rightarrow> session_state \<Rightarrow> job_definition \<Rightarrow> job_result \<Rightarrow> bool \<Rightarrow>
   error + (session_state \<times> log_record list)" where
  "observe_result ev s j r fake_resources =
     (case map_of (job_state_map s) (job_id j) of
        None \<Rightarrow> Inl (KeyError (job_id j))
      | Some st \<Rightarrow>
          (let s1 = s\<lparr>job_state_map :=
                        AList.update (job_id j) (st\<lparr>result := r\<rparr>) (job_state_map s),
                      calls := calls s @ [on_job_state_map_changed, on_job_result_changed j r]\<rparr>
           in if plugin j = ''resource''
              then process_resource_result ev s1 j r fake_resources
              else Inr (s1, [])))"

subsection \<open>Validation of a generated job, in the words of the specification\<close>

text \<open>
  A candidate validates when its check raises no missing parameter and finds nothing of
  error severity; its validation errors are the missing parameter, or the findings of
  error severity.
\<close>

definition validates :: "env \<Rightarrow> job_definition \<Rightarrow> bool" where
  "validates ev u =
     (case check ev u of
        MissingParam parameter \<Rightarrow> False
      | Issues check_result \<Rightarrow> \<not> list_ex (\<lambda>c. severity c = Severity_error) check_result)"

definition validation_errors :: "env \<Rightarrow> job_definition \<Rightarrow> validation_error list" where
  "validation_errors ev u =
     (case check ev u of
        MissingParam parameter \<Rightarrow> [MissingParamError parameter]
      | Issues check_result \<Rightarrow>
          map IssueError (filter (\<lambda>c. severity c = Severity_error) check_result))"

subsection \<open>A parser of paragraph records\<close>

text \<open>
  Modelled from the spec: the generator \<open>gen_rfc822_records\<close> of
  \<open>plainbox.impl.secure.rfc822\<close>, which the sources do not contain. The lines are read in
  order. A blank line ends a paragraph, and a paragraph with at least one key is yielded as
  one record; a line with a colon adds the key before the first colon and the value after
  it, both stripped, to the paragraph; any other line is a syntax error, raised where the
  line is read, so that the paragraph it stands in is not yielded. The end of the lines
  ends the last paragraph.
\<close>

definition is_space :: "char \<Rightarrow> bool" where
  "is_space c = (c = CHR '' '' \<or> c = CHR 0x0A \<or> c = CHR 0x09 \<or> c = CHR 0x0D)"

definition strip :: "string \<Rightarrow> string" where
  "strip text = rev (dropWhile is_space (rev (dropWhile is_space text)))"

definition end_of_paragraph :: "(string \<times> string) list \<Rightarrow> rfc822_record list" where
  "end_of_paragraph paragraph = (if paragraph = [] then [] else [\<lparr>data = paragraph\<rparr>])"

fun parse_paragraphs ::
  "string list \<Rightarrow> (string \<times> string) list \<Rightarrow> rfc822_record list \<times> syntax_error option" where
  "parse_paragraphs [] paragraph = (end_of_paragraph paragraph, None)"
| "parse_paragraphs (line # lines) paragraph =
     (if strip line = [] then
        (case parse_paragraphs lines [] of
           (records, raised) \<Rightarrow> (end_of_paragraph paragraph @ records, raised))
      else if CHR '':'' \<in> set line then
        parse_paragraphs lines
          (paragraph @ [(strip (takeWhile (\<lambda>c. c \<noteq> CHR '':'') line),
                         strip (drop 1 (dropWhile (\<lambda>c. c \<noteq> CHR '':'') line)))])
      else ([], Some (RFC822SyntaxError (''Unexpected non-empty line: '' @ line))))"

subsection \<open>Example jobs and sessions\<close>

text \<open>
  A job without any declaration, the state of a job with a given outcome, a session that
  holds the given job states, and collaborators that do nothing of interest: they are the
  concrete inputs at which the theorems below are evaluated.
\<close>

definition plain_job :: "string \<Rightarrow> job_definition" where
  "plain_job name =
     \<lparr>job_id = name, plugin = ''shell'', depends = [], after = [], salvage = [],
      before = [], resource_program = None, resource_dependencies = Some [],
      flags = None, siblings = None, before_references = {}\<rparr>"

definition with_outcome :: "job_definition \<Rightarrow> outcome \<Rightarrow> string \<times> job_state" where
  "with_outcome j oc =
     (job_id j,
      \<lparr>job = j, result = \<lparr>outcome = oc, io_log = []\<rparr>, readiness_inhibitor_list = []\<rparr>)"

definition session_of :: "(string \<times> job_state) list \<Rightarrow> session_state" where
  "session_of states =
     \<lparr>job_state_map = states, resource_map = [],
      unit_list = map (\<lambda>(k, st). JobDefinition (job st)) states,
      metadata_flags = {}, provenance = [], calls = []\<rparr>"

definition quiet_env :: env where
  "quiet_env =
     \<lparr>decode = (\<lambda>bytes. bytes),
      gen_rfc822_records = (\<lambda>lines. ([], None)),
      evaluate_or_raise = (\<lambda>prog resources. Evaluated),
      check = (\<lambda>u. Issues []),
      instantiate_one = (\<lambda>t r fake. plain_job (template_id t))\<rparr>"

text \<open>
  A job with three hard dependencies, in a session where one has failed, one has passed
  and one has not run.
\<close>

definition ping_job :: job_definition where
  "ping_job = (plain_job ''net/ping'')\<lparr>depends := [''net/up'', ''net/detect'', ''net/cfg'']\<rparr>"

definition ping_session :: session_state where
  "ping_session =
     session_of [with_outcome ping_job OUTCOME_NONE,
                 with_outcome (plain_job ''net/up'') OUTCOME_FAIL,
                 with_outcome (plain_job ''net/cfg'') OUTCOME_PASS,
                 with_outcome (plain_job ''net/detect'') OUTCOME_NONE]"

text \<open>
  A session around the automatic suspend checkpoint: one job that carries its flag, one
  job that does not, and one job that carries the flag and is marked as undesired.
\<close>

definition wifi_job :: job_definition where
  "wifi_job = (plain_job ''wifi/scan'')\<lparr>flags := Some ''also-after-suspend''\<rparr>"

definition audio_job :: job_definition where
  "audio_job = (plain_job ''audio/play'')\<lparr>flags := Some ''also-after-suspend''\<rparr>"

definition undesired :: "string \<times> job_state \<Rightarrow> string \<times> job_state" where
  "undesired entry =
     (fst entry, (snd entry)\<lparr>readiness_inhibitor_list := [undesired_inhibitor]\<rparr>)"

definition suspend_session :: session_state where
  "suspend_session =
     session_of [with_outcome (plain_job AUTO_JOB_ID) OUTCOME_NONE,
                 with_outcome wifi_job OUTCOME_NONE,
                 with_outcome (plain_job ''usb/detect'') OUTCOME_NONE,
                 undesired (with_outcome audio_job OUTCOME_NONE)]"

text \<open>
  Collaborators that parse paragraph records, build from a template and a resource the
  job named after the template and the \<open>id\<close> of the resource, and refuse the job
  \<open>disk/test_sdb\<close>; a resource job, a template bound to it, and the result of the
  resource job with given lines on stdout.
\<close>

definition disk_env :: env where
  "disk_env =
     \<lparr>decode = (\<lambda>bytes. bytes),
      gen_rfc822_records = (\<lambda>lines. parse_paragraphs lines []),
      evaluate_or_raise = (\<lambda>prog resources. Evaluated),
      check = (\<lambda>u. if job_id u = ''disk/test_sdb''
                    then Issues [\<lparr>severity = Severity_warning, issue_text = ''slow device''\<rparr>,
                                 \<lparr>severity = Severity_error, issue_text = ''no command''\<rparr>]
                    else Issues []),
      instantiate_one =
        (\<lambda>t r fake. plain_job (template_id t @ ''_''
                                 @ (case map_of r ''id'' of None \<Rightarrow> [] | Some v \<Rightarrow> v)))\<rparr>"

definition disk_job :: job_definition where
  "disk_job = (plain_job ''disk'')\<lparr>plugin := ''resource''\<rparr>"

definition disk_template :: template_unit where
  "disk_template = \<lparr>template_id = ''disk/test'', resource_id = ''disk''\<rparr>"

definition disk_session :: "string set \<Rightarrow> session_state" where
  "disk_session session_flags =
     \<lparr>job_state_map = [with_outcome disk_job OUTCOME_NONE], resource_map = [],
      unit_list = [JobDefinition disk_job, TemplateUnit disk_template],
      metadata_flags = session_flags, provenance = [], calls = []\<rparr>"

definition stdout_result :: "string list \<Rightarrow> job_result" where
  "stdout_result lines =
     \<lparr>outcome = OUTCOME_PASS,
      io_log = map (\<lambda>line. \<lparr>stream_name = ''stdout'', stream_data = line\<rparr>) lines\<rparr>"

text \<open>A job that declares that it runs before the job \<open>install\<close>.\<close>

definition setup_job :: job_definition where
  "setup_job = (plain_job ''setup'')\<lparr>before := [''install'']\<rparr>"

text \<open>
  A job that carries only the flag of the manual suspend checkpoint, in a session with the
  automatic checkpoint and the job that carries its flag; a job with a sibling that depends
  on the automatic checkpoint, in a session with the manual checkpoint.
\<close>

definition printer_job :: job_definition where
  "printer_job = (plain_job ''printer/test'')\<lparr>flags := Some ''also-after-suspend-manual''\<rparr>"

definition mixed_suspend_session :: session_state where
  "mixed_suspend_session =
     session_of [with_outcome (plain_job AUTO_JOB_ID) OUTCOME_NONE,
                 with_outcome wifi_job OUTCOME_NONE,
                 with_outcome printer_job OUTCOME_NONE]"

definition dock_job :: job_definition where
  "dock_job =
     (plain_job ''dock/hotplug'')
       \<lparr>siblings := Some [\<lparr>sibling_depends = Some (DependsText AUTO_JOB_ID)\<rparr>]\<rparr>"

definition manual_suspend_session :: session_state where
  "manual_suspend_session =
     session_of [with_outcome (plain_job MANUAL_JOB_ID) OUTCOME_NONE,
                 with_outcome printer_job OUTCOME_NONE,
                 with_outcome dock_job OUTCOME_NONE]"

section \<open>Properties\<close>

subsection \<open>Linking the before references\<close>

text \<open>
  The loop never takes the \<open>KeyError\<close> branch. It changes the jobs of \<open>job_map\<close> that
  the before list names and the global catalog holds, and logs one record for every other
  id of the before list.
\<close>

lemma add_before_deps_loop_result:
  "add_before_deps_loop j ds job_map g logs =
     Inr (\<lambda>k. case job_map k of
                None \<Rightarrow> None
              | Some d \<Rightarrow>
                  Some (if k \<in> set ds \<and> g k \<noteq> None
                        then d\<lparr>before_references := insert (job_id j) (before_references d)\<rparr>
                        else d),
          logs @ concat (map (\<lambda>dep_id.
                    if g dep_id = None then [before_missing_log j dep_id]
                    else if job_map dep_id = None then [before_inactive_log j dep_id]
                    else []) ds))"
proof (induction ds arbitrary: job_map logs)
  case Nil
  show ?case by (auto simp: fun_eq_iff split: option.splits)
next
  case (Cons dep_id rest)
  show ?case
  proof (cases "g dep_id = None \<or> job_map dep_id = None")
    case True
    then show ?thesis
      by (auto simp: Cons.IH fun_eq_iff split: option.splits)
  next
    case False
    then obtain d where d: "job_map dep_id = Some d" and g: "g dep_id \<noteq> None"
      by auto
    define d' where "d' = d\<lparr>before_references := insert (job_id j) (before_references d)\<rparr>"
    define job_map' where "job_map' = job_map(dep_id \<mapsto> d')"
    have step: "add_before_deps_loop j (dep_id # rest) job_map g logs =
                add_before_deps_loop j rest job_map' g logs"
      using d g by (auto simp: d'_def job_map'_def)
    have same_dom: "\<And>k. (job_map' k = None) = (job_map k = None)"
      using d by (auto simp: job_map'_def)
    have map_eq: "(case job_map' k of
                None \<Rightarrow> None
              | Some d \<Rightarrow>
                  Some (if k \<in> set rest \<and> g k \<noteq> None
                        then d\<lparr>before_references := insert (job_id j) (before_references d)\<rparr>
                        else d)) = (case job_map k of
                None \<Rightarrow> None
              | Some d \<Rightarrow>
                  Some (if k \<in> set (dep_id # rest) \<and> g k \<noteq> None
                        then d\<lparr>before_references := insert (job_id j) (before_references d)\<rparr>
                        else d))" for k
      using d g by (auto simp: job_map'_def d'_def split: option.splits)
    have logs_eq: "concat (map (\<lambda>dep_id.
                    if g dep_id = None then [before_missing_log j dep_id]
                    else if job_map' dep_id = None then [before_inactive_log j dep_id]
                    else []) rest) = concat (map (\<lambda>dep_id.
                    if g dep_id = None then [before_missing_log j dep_id]
                    else if job_map dep_id = None then [before_inactive_log j dep_id]
                    else []) rest)"
      by (simp only: same_dom)
    show ?thesis
      unfolding step Cons.IH using d g by (auto simp: logs_eq map_eq)
  qed
qed

text \<open>
  Claim C9. For every job \<open>j\<close> and every id of its before list, \<open>add_before_deps\<close>
  never raises. An id that the global catalog does not hold is logged as an error and
  changes nothing; an id of the catalog that the active job map does not hold is logged at
  debug level and changes nothing; the id of \<open>j\<close> is added to the before references of
  exactly the jobs of the active map that the before list names (and the catalog holds),
  and every other job of the map is left as it was.
\<close>

theorem add_before_deps_links_active_targets:
  "\<exists>job_map' logs.
     add_before_deps j job_map global_job_map = Inr (job_map', logs) \<and>
     (\<forall>k. job_map' k =
        (case job_map k of
           None \<Rightarrow> None
         | Some d \<Rightarrow>
             Some (if k \<in> set (before j) \<and> global_job_map k \<noteq> None
                   then d\<lparr>before_references := insert (job_id j) (before_references d)\<rparr>
                   else d))) \<and>
     logs = concat (map (\<lambda>dep_id.
              if global_job_map dep_id = None then [before_missing_log j dep_id]
              else if job_map dep_id = None then [before_inactive_log j dep_id]
              else []) (before j))"
  by (simp add: add_before_deps_def add_before_deps_loop_result)

theorem add_before_deps_links_active_targets_witness:
  "\<exists>job_map' logs.
     add_before_deps ((plain_job ''A'')\<lparr>before := [''B'', ''X'', ''Y'']\<rparr>)
       [''A'' \<mapsto> plain_job ''A'', ''B'' \<mapsto> plain_job ''B'']
       [''A'' \<mapsto> plain_job ''A'', ''B'' \<mapsto> plain_job ''B'', ''Y'' \<mapsto> plain_job ''Y'']
       = Inr (job_map', logs) \<and>
     job_map' ''B'' = Some ((plain_job ''B'')\<lparr>before_references := {''A''}\<rparr>) \<and>
     job_map' ''A'' = Some (plain_job ''A'') \<and>
     job_map' ''X'' = None \<and>
     job_map' ''Y'' = None \<and>
     logs = [(ERROR, ''Job {} has a before dependency on {} which does not exist'',
              [Text ''A'', Text ''X'']),
             (DEBUG, ''Job {} has a before dependency on {} which is not in the current test plan'',
              [Text ''A'', Text ''Y''])]"
  using add_before_deps_links_active_targets
    [of "(plain_job ''A'')\<lparr>before := [''B'', ''X'', ''Y'']\<rparr>"
        "[''A'' \<mapsto> plain_job ''A'', ''B'' \<mapsto> plain_job ''B'']"
        "[''A'' \<mapsto> plain_job ''A'', ''B'' \<mapsto> plain_job ''B'', ''Y'' \<mapsto> plain_job ''Y'']"]
  by (auto simp: plain_job_def before_missing_log_def before_inactive_log_def)

subsection \<open>Hard dependencies\<close>

text \<open>
  A loop whose iterations all return appends the concatenation of what they append, in
  the order of the list it runs over.
\<close>

lemma for_each_Inr:
  "(\<And>x. x \<in> set xs \<Longrightarrow> body x = Inr (f x)) \<Longrightarrow> for_each body xs = Inr (concat (map f xs))"
  by (induction xs) auto

lemma for_each_returns:
  "for_each body xs = Inr ys \<Longrightarrow>
     (\<forall>x \<in> set xs. \<exists>zs. body x = Inr zs) \<and>
     ys = concat (map (\<lambda>x. case body x of Inr zs \<Rightarrow> zs | Inl e \<Rightarrow> []) xs)"
proof (induction xs arbitrary: ys)
  case Nil
  then show ?case by simp
next
  case (Cons x xs)
  then show ?case by (auto split: sum.splits)
qed

lemma direct_dependency_step_cases:
  "direct_dependency_step s d = Inr zs \<Longrightarrow>
     \<exists>st. job_state_of s d = Inr st \<and>
       zs = (if outcome (result st) = OUTCOME_NONE then
               [\<lparr>cause = PENDING_DEP, related_job = Some (job st), related_expression = None\<rparr>]
             else if outcome (result st) \<noteq> OUTCOME_PASS then
               [\<lparr>cause = FAILED_DEP, related_job = Some (job st), related_expression = None\<rparr>]
             else [])"
  unfolding direct_dependency_step_def by (cases "job_state_of s d") auto

text \<open>
  Claim C1. Let \<open>get_inhibitor_list\<close> return for a job \<open>J\<close>, and let \<open>D\<close> be an id of
  the hard dependencies of \<open>J\<close>. Then \<open>D\<close> has a job state; the returned list holds a
  \<open>PENDING_DEP\<close> inhibitor for the job of \<open>D\<close> when the stored outcome is \<open>NONE\<close>, and a
  \<open>FAILED_DEP\<close> inhibitor for it when the outcome is neither \<open>NONE\<close> nor \<open>PASS\<close>; when
  the outcome is \<open>PASS\<close> the iteration for \<open>D\<close> appends nothing. The hard dependencies
  are visited in increasing order of id, each once: the list is the inhibitors of the
  resource step, then what the iterations append in that order, then the rest.
\<close>

theorem hard_dependencies_inhibit:
  assumes ret: "get_inhibitor_list ev s J = Inr inhibitors"
    and D: "D \<in> set (depends J)"
  shows "\<exists>st ids from_resources rest.
           job_state_of s D = Inr st \<and>
           (outcome (result st) = OUTCOME_NONE \<longrightarrow>
              \<lparr>cause = PENDING_DEP, related_job = Some (job st), related_expression = None\<rparr>
                \<in> set inhibitors) \<and>
           (outcome (result st) \<noteq> OUTCOME_NONE \<and> outcome (result st) \<noteq> OUTCOME_PASS \<longrightarrow>
              \<lparr>cause = FAILED_DEP, related_job = Some (job st), related_expression = None\<rparr>
                \<in> set inhibitors) \<and>
           (outcome (result st) = OUTCOME_PASS \<longrightarrow> direct_dependency_step s D = Inr []) \<and>
           sorted ids \<and> distinct ids \<and> set ids = set (depends J) \<and>
           resource_inhibitors ev s J = Inr from_resources \<and>
           inhibitors =
             from_resources
             @ concat (map (\<lambda>d. case direct_dependency_step s d of
                                   Inr appended \<Rightarrow> appended | Inl e \<Rightarrow> []) ids)
             @ rest"
proof -
  let ?ids = "sort (remdups (depends J))"
  let ?contribution = "\<lambda>d. case direct_dependency_step s d of Inr appended \<Rightarrow> appended | Inl e \<Rightarrow> []"
  from ret obtain from_resources from_depends rest where
    res: "resource_inhibitors ev s J = Inr from_resources"
    and dep: "for_each (direct_dependency_step s) ?ids = Inr from_depends"
    and all: "inhibitors = from_resources @ from_depends @ rest"
    unfolding get_inhibitor_list_def by (auto split: sum.splits)
  from for_each_returns [OF dep] have
    steps: "\<forall>x \<in> set ?ids. \<exists>zs. direct_dependency_step s x = Inr zs"
    and from_depends: "from_depends = concat (map ?contribution ?ids)"
    by blast+
  from D have D_in: "D \<in> set ?ids" by simp
  with steps obtain zs where zs: "direct_dependency_step s D = Inr zs" by blast
  from direct_dependency_step_cases [OF zs] obtain st where
    st: "job_state_of s D = Inr st"
    and zs_eq: "zs = (if outcome (result st) = OUTCOME_NONE then
               [\<lparr>cause = PENDING_DEP, related_job = Some (job st), related_expression = None\<rparr>]
             else if outcome (result st) \<noteq> OUTCOME_PASS then
               [\<lparr>cause = FAILED_DEP, related_job = Some (job st), related_expression = None\<rparr>]
             else [])"
    by blast
  have "set (?contribution D) \<subseteq> set from_depends"
    unfolding from_depends using D_in by auto
  then have sub: "set zs \<subseteq> set inhibitors"
    using zs unfolding all by auto
  have ids: "sorted ?ids \<and> distinct ?ids \<and> set ?ids = set (depends J)" by simp
  have pending: "outcome (result st) = OUTCOME_NONE \<longrightarrow>
              \<lparr>cause = PENDING_DEP, related_job = Some (job st), related_expression = None\<rparr>
                \<in> set inhibitors"
    using sub zs_eq by auto
  have failed: "outcome (result st) \<noteq> OUTCOME_NONE \<and> outcome (result st) \<noteq> OUTCOME_PASS \<longrightarrow>
              \<lparr>cause = FAILED_DEP, related_job = Some (job st), related_expression = None\<rparr>
                \<in> set inhibitors"
    using sub zs_eq by auto
  have passed: "outcome (result st) = OUTCOME_PASS \<longrightarrow> direct_dependency_step s D = Inr []"
    using zs zs_eq by auto
  have whole: "inhibitors = from_resources @ concat (map ?contribution ?ids) @ rest"
    using all from_depends by simp
  show ?thesis
    using st pending failed passed ids res whole by blast
qed

lemma ping_inhibitors:
  "get_inhibitor_list quiet_env ping_session ping_job =
     Inr [\<lparr>cause = PENDING_DEP, related_job = Some (plain_job ''net/detect''),
            related_expression = None\<rparr>,
          \<lparr>cause = FAILED_DEP, related_job = Some (plain_job ''net/up''),
            related_expression = None\<rparr>]"
  by (simp add: get_inhibitor_list_def resource_inhibitors_def direct_dependency_step_def
      job_state_of_def ping_session_def ping_job_def session_of_def with_outcome_def
      plain_job_def AUTO_JOB_ID_def MANUAL_JOB_ID_def)

theorem hard_dependencies_inhibit_witness:
  "get_inhibitor_list quiet_env ping_session ping_job =
     Inr [\<lparr>cause = PENDING_DEP, related_job = Some (plain_job ''net/detect''),
            related_expression = None\<rparr>,
          \<lparr>cause = FAILED_DEP, related_job = Some (plain_job ''net/up''),
            related_expression = None\<rparr>] \<and>
   ''net/up'' \<in> set (depends ping_job) \<and>
   (\<exists>st. job_state_of ping_session ''net/up'' = Inr st \<and>
         outcome (result st) = OUTCOME_FAIL \<and>
         \<lparr>cause = FAILED_DEP, related_job = Some (job st), related_expression = None\<rparr>
           \<in> set [\<lparr>cause = PENDING_DEP, related_job = Some (plain_job ''net/detect''),
                    related_expression = None\<rparr>,
                  \<lparr>cause = FAILED_DEP, related_job = Some (plain_job ''net/up''),
                    related_expression = None\<rparr>])"
proof -
  have in_depends: "''net/up'' \<in> set (depends ping_job)"
    by (simp add: ping_job_def plain_job_def)
  from hard_dependencies_inhibit [OF ping_inhibitors in_depends]
  obtain st where st: "job_state_of ping_session ''net/up'' = Inr st"
    and failed: "outcome (result st) \<noteq> OUTCOME_NONE \<and> outcome (result st) \<noteq> OUTCOME_PASS \<longrightarrow>
       \<lparr>cause = FAILED_DEP, related_job = Some (job st), related_expression = None\<rparr>
           \<in> set [\<lparr>cause = PENDING_DEP, related_job = Some (plain_job ''net/detect''),
                    related_expression = None\<rparr>,
                  \<lparr>cause = FAILED_DEP, related_job = Some (plain_job ''net/up''),
                    related_expression = None\<rparr>]"
    by blast
  have "outcome (result st) = OUTCOME_FAIL"
    using st by (auto simp: job_state_of_def ping_session_def ping_job_def session_of_def
        with_outcome_def plain_job_def)
  with st failed in_depends ping_inhibitors show ?thesis by simp
qed

subsection \<open>Observing the result of a job that is not a resource job\<close>

text \<open>
  Claim C10. For a job \<open>J\<close> of the session whose plugin is not \<open>resource\<close>, and every
  result \<open>r\<close>, \<open>observe_result\<close> returns; the stored result of \<open>J\<close> becomes \<open>r\<close>,
  whatever it was, and the rest of its job state stays; the two notifications are sent,
  in this order; the state of every other job, the keys of the job state map, the
  resource map, the unit collection and the metadata are unchanged, and nothing is logged.
\<close>

theorem observe_result_frame:
  assumes "plugin J \<noteq> ''resource''"
    and "map_of (job_state_map s) (job_id J) = Some st"
  shows "\<exists>s'. observe_result ev s J r fake_resources = Inr (s', []) \<and>
           map_of (job_state_map s') (job_id J) = Some (st\<lparr>result := r\<rparr>) \<and>
           (\<forall>k. k \<noteq> job_id J \<longrightarrow> map_of (job_state_map s') k = map_of (job_state_map s) k) \<and>
           map fst (job_state_map s') = map fst (job_state_map s) \<and>
           resource_map s' = resource_map s \<and>
           unit_list s' = unit_list s \<and>
           metadata_flags s' = metadata_flags s \<and>
           provenance s' = provenance s \<and>
           calls s' = calls s @ [on_job_state_map_changed, on_job_result_changed J r]"
proof -
  have "job_id J \<in> fst ` set (job_state_map s)"
    using assms(2) by (rule map_of_SomeD [THEN rev_image_eqI]) simp
  then have keys: "map fst (AList.update (job_id J) (st\<lparr>result := r\<rparr>) (job_state_map s)) = map fst (job_state_map s)"
    by (simp add: update_keys)
  show ?thesis
    using assms keys by (simp add: observe_result_def update_conv')
qed

theorem observe_result_frame_witness:
  "plugin (plain_job ''net/up'') \<noteq> ''resource'' \<and>
   (\<exists>s'. observe_result quiet_env ping_session (plain_job ''net/up'')
            \<lparr>outcome = OUTCOME_PASS, io_log = []\<rparr> False = Inr (s', []) \<and>
         map_of (job_state_map s') ''net/up'' =
           Some \<lparr>job = plain_job ''net/up'', result = \<lparr>outcome = OUTCOME_PASS, io_log = []\<rparr>,
                 readiness_inhibitor_list = []\<rparr> \<and>
         map_of (job_state_map s') ''net/cfg'' = map_of (job_state_map ping_session) ''net/cfg'' \<and>
         resource_map s' = resource_map ping_session \<and>
         unit_list s' = unit_list ping_session \<and>
         calls s' = [on_job_state_map_changed,
                     on_job_result_changed (plain_job ''net/up'')
                       \<lparr>outcome = OUTCOME_PASS, io_log = []\<rparr>])"
proof -
  have not_resource: "plugin (plain_job ''net/up'') \<noteq> ''resource''"
    by (simp add: plain_job_def)
  have stored: "map_of (job_state_map ping_session) (job_id (plain_job ''net/up'')) =
      Some \<lparr>job = plain_job ''net/up'', result = \<lparr>outcome = OUTCOME_FAIL, io_log = []\<rparr>,
            readiness_inhibitor_list = []\<rparr>"
    by (simp add: ping_session_def ping_job_def session_of_def with_outcome_def plain_job_def)
  have id_up: "job_id (plain_job ''net/up'') = ''net/up''"
    by (simp add: plain_job_def)
  have no_calls: "calls ping_session = []"
    by (simp add: ping_session_def session_of_def)
  from observe_result_frame [OF not_resource stored,
      of quiet_env "\<lparr>outcome = OUTCOME_PASS, io_log = []\<rparr>" False]
  show ?thesis
    using not_resource by (auto simp: id_up no_calls)
qed

subsection \<open>Suspend checkpoints\<close>

text \<open>For a suspend checkpoint id, the test of a job never raises.\<close>

lemma is_job_impacting_suspend_returns:
  "suspend_job_id = AUTO_JOB_ID \<or> suspend_job_id = MANUAL_JOB_ID \<Longrightarrow>
   \<exists>b. is_job_impacting_suspend suspend_job_id j = Inr b"
  by (auto simp: is_job_impacting_suspend_def expected_flag_def Let_def split: option.splits)

lemma concat_map_if:
  "concat (map (\<lambda>x. if P x then X else []) xs) = concat (map (\<lambda>x. X) (filter P xs))"
  by (induction xs) auto

text \<open>
  Let \<open>C\<close> be a suspend checkpoint job without requirement program and without hard,
  after or salvage dependencies, in a session where exactly one job state is both not
  marked \<open>UNDESIRED\<close> and accepted by the test \<open>_is_job_impacting_suspend\<close> for the id
  of \<open>C\<close>: the state of the job \<open>L\<close>, stored under the id of \<open>L\<close>. Then the
  inhibitor list of \<open>C\<close> is exactly one \<open>PENDING_DEP\<close> inhibitor for \<open>L\<close> when the
  outcome of \<open>L\<close> is \<open>NONE\<close>, and it is empty otherwise.
\<close>

theorem suspend_checkpoint_single_linked_job:
  assumes checkpoint: "job_id C = AUTO_JOB_ID \<or> job_id C = MANUAL_JOB_ID"
    and no_program: "resource_program C = None"
    and no_depends: "depends C = []"
    and no_after: "after C = []"
    and no_salvage: "salvage C = []"
    and linked:
      "filter (\<lambda>(k, state). undesired_inhibitor \<notin> set (readiness_inhibitor_list state) \<and>
                             is_job_impacting_suspend (job_id C) (job state) = Inr True)
         (job_state_map s) = [(job_id L, state_L)]"
    and state_L: "job state_L = L"
    and stored: "map_of (job_state_map s) (job_id L) = Some state_L"
  shows "get_inhibitor_list ev s C =
           Inr (if outcome (result state_L) = OUTCOME_NONE
                then [\<lparr>cause = PENDING_DEP, related_job = Some L, related_expression = None\<rparr>]
                else [])"
proof -
  define X where "X = (if outcome (result state_L) = OUTCOME_NONE
                then [\<lparr>cause = PENDING_DEP, related_job = Some L, related_expression = None\<rparr>]
                else [])"
  define desired where
    "desired = filter (\<lambda>(k, state). undesired_inhibitor \<notin> set (readiness_inhibitor_list state))
                 (job_state_map s)"
  define impacting where
    "impacting = (\<lambda>j. is_job_impacting_suspend (job_id C) j = Inr True)"
  have linked': "filter (\<lambda>(k, state). impacting (job state)) desired = [(job_id L, state_L)]"
    using linked unfolding desired_def impacting_def
    by (simp add: case_prod_unfold conj_commute)
  have step: "suspend_inhibitor_step s (job_id C) j = Inr (if impacting j then X else [])"
    if "j \<in> set (map (\<lambda>(k, state). job state) desired)" for j
  proof (cases "impacting j")
    case False
    from is_job_impacting_suspend_returns [OF checkpoint, of j]
    obtain b where b: "is_job_impacting_suspend (job_id C) j = Inr b" by blast
    with False have "b = False" by (auto simp: impacting_def)
    with b False show ?thesis by (simp add: suspend_inhibitor_step_def)
  next
    case True
    from that obtain k state where entry: "(k, state) \<in> set desired" and j: "j = job state"
      by auto
    with True have "(k, state) \<in> set (filter (\<lambda>(k, state). impacting (job state)) desired)"
      by simp
    then have "(k, state) = (job_id L, state_L)"
      unfolding linked' by simp
    with j state_L have "j = L" by simp
    with True stored show ?thesis
      by (simp add: suspend_inhibitor_step_def impacting_def job_state_of_def X_def)
  qed
  have "get_suspend_inhibitor_list s C =
          Inr (concat (map (\<lambda>j. if impacting j then X else [])
                 (map (\<lambda>(k, state). job state) desired)))"
    unfolding get_suspend_inhibitor_list_def Let_def desired_def [symmetric]
    by (rule for_each_Inr) (rule step)
  also have "concat (map (\<lambda>j. if impacting j then X else [])
                 (map (\<lambda>(k, state). job state) desired)) =
             concat (map (\<lambda>e. X) (filter (\<lambda>(k, state). impacting (job state)) desired))"
    by (simp add: concat_map_if filter_map comp_def case_prod_unfold)
  also have "\<dots> = X" unfolding linked' by simp
  finally have suspend: "get_suspend_inhibitor_list s C = Inr X" .
  show ?thesis
    using checkpoint no_program no_depends no_after no_salvage suspend
    unfolding X_def [symmetric]
    by (auto simp: get_inhibitor_list_def resource_inhibitors_def)
qed

lemmas example_defs =
  suspend_session_def wifi_job_def audio_job_def undesired_def session_of_def
  with_outcome_def plain_job_def undesired_inhibitor_def
  is_job_impacting_suspend_def expected_flag_def
  AUTO_JOB_ID_def MANUAL_JOB_ID_def AUTO_FLAG_def MANUAL_FLAG_def
  sublist_code(3) prefix_code(2)

theorem suspend_checkpoint_single_linked_job_witness:
  "get_inhibitor_list quiet_env suspend_session (plain_job AUTO_JOB_ID) =
     Inr [\<lparr>cause = PENDING_DEP, related_job = Some wifi_job, related_expression = None\<rparr>] \<and>
   (\<exists>s'. observe_result quiet_env suspend_session wifi_job
            \<lparr>outcome = OUTCOME_PASS, io_log = []\<rparr> False = Inr (s', []) \<and>
         get_inhibitor_list quiet_env s' (plain_job AUTO_JOB_ID) = Inr [])"
proof -
  let ?C = "plain_job AUTO_JOB_ID"
  let ?pass = "\<lparr>outcome = OUTCOME_PASS, io_log = []\<rparr>"
  let ?state = "\<lambda>r. \<lparr>job = wifi_job, result = r, readiness_inhibitor_list = []\<rparr>"
  let ?s' = "suspend_session\<lparr>job_state_map :=
      AList.update (job_id wifi_job) (?state ?pass) (job_state_map suspend_session),
      calls := calls suspend_session @ [on_job_state_map_changed, on_job_result_changed wifi_job ?pass]\<rparr>"
  have checkpoint: "job_id ?C = AUTO_JOB_ID \<or> job_id ?C = MANUAL_JOB_ID"
    by (simp add: plain_job_def)
  have empty: "resource_program ?C = None" "depends ?C = []" "after ?C = []" "salvage ?C = []"
    by (simp_all add: plain_job_def)
  have linked_none:
    "filter (\<lambda>(k, state). undesired_inhibitor \<notin> set (readiness_inhibitor_list state) \<and>
                             is_job_impacting_suspend (job_id ?C) (job state) = Inr True)
         (job_state_map suspend_session) = [(job_id wifi_job, ?state \<lparr>outcome = OUTCOME_NONE, io_log = []\<rparr>)]"
    by (simp add: example_defs)
  have stored_none: "map_of (job_state_map suspend_session) (job_id wifi_job) =
      Some (?state \<lparr>outcome = OUTCOME_NONE, io_log = []\<rparr>)"
    by (simp add: example_defs)
  have observed: "observe_result quiet_env suspend_session wifi_job ?pass False = Inr (?s', [])"
    using stored_none by (simp add: observe_result_def wifi_job_def plain_job_def)
  have linked_pass:
    "filter (\<lambda>(k, state). undesired_inhibitor \<notin> set (readiness_inhibitor_list state) \<and>
                             is_job_impacting_suspend (job_id ?C) (job state) = Inr True)
         (job_state_map ?s') = [(job_id wifi_job, ?state ?pass)]"
    by (simp add: example_defs)
  have stored_pass: "map_of (job_state_map ?s') (job_id wifi_job) = Some (?state ?pass)"
    by (simp add: example_defs)
  have "get_inhibitor_list quiet_env suspend_session ?C =
     Inr [\<lparr>cause = PENDING_DEP, related_job = Some wifi_job, related_expression = None\<rparr>]"
    using suspend_checkpoint_single_linked_job
      [OF checkpoint empty linked_none _ stored_none, of quiet_env]
    by simp
  moreover have "get_inhibitor_list quiet_env ?s' ?C = Inr []"
    using suspend_checkpoint_single_linked_job
      [OF checkpoint empty linked_pass _ stored_pass, of quiet_env]
    by simp
  ultimately show ?thesis using observed by simp
qed

subsection \<open>The dependency set after linking\<close>

text \<open>
  The linker pass never raises; it adds to the before references of each job of the active
  map the ids of the jobs of the list that name it in their before list, when the global
  catalog holds it. With a job list, \<open>get_dependency_set\<close> returns, and the before
  references are among the edges, with the type \<open>BEFORE\<close>.
\<close>

lemma add_before_deps_result:
  "add_before_deps j job_map g =
     Inr (\<lambda>k. case job_map k of
                None \<Rightarrow> None
              | Some d \<Rightarrow>
                  Some (if k \<in> set (before j) \<and> g k \<noteq> None
                        then d\<lparr>before_references := insert (job_id j) (before_references d)\<rparr>
                        else d),
          concat (map (\<lambda>dep_id.
                    if g dep_id = None then [before_missing_log j dep_id]
                    else if job_map dep_id = None then [before_inactive_log j dep_id]
                    else []) (before j)))"
  by (simp add: add_before_deps_def add_before_deps_loop_result)

lemma add_before_deps_all_result:
  "\<exists>logs. add_before_deps_all jobs job_map g =
     Inr (\<lambda>k. case job_map k of
                None \<Rightarrow> None
              | Some d \<Rightarrow>
                  Some (d\<lparr>before_references :=
                          before_references d
                          \<union> job_id ` {j \<in> set jobs. k \<in> set (before j) \<and> g k \<noteq> None}\<rparr>),
          logs)"
proof (induction jobs arbitrary: job_map)
  case Nil
  have unchanged: "(\<lambda>k. case job_map k of None \<Rightarrow> None
           | Some d \<Rightarrow> Some (d\<lparr>before_references := before_references d \<union> job_id ` {j \<in> set []. k \<in> set (before j) \<and> g k \<noteq> None}\<rparr>))
        = job_map"
    by (auto simp: fun_eq_iff split: option.splits)
  show ?case unfolding unchanged by simp
next
  case (Cons j js)
  define job_map1 where "job_map1 = (\<lambda>k. case job_map k of
                None \<Rightarrow> None
              | Some d \<Rightarrow>
                  Some (if k \<in> set (before j) \<and> g k \<noteq> None
                        then d\<lparr>before_references := insert (job_id j) (before_references d)\<rparr>
                        else d))"
  obtain logs1 where first: "add_before_deps j job_map g = Inr (job_map1, logs1)"
    unfolding job_map1_def by (simp add: add_before_deps_result)
  from Cons.IH [of job_map1] obtain logs2 where rest:
    "add_before_deps_all js job_map1 g =
       Inr (\<lambda>k. case job_map1 k of
                None \<Rightarrow> None
              | Some d \<Rightarrow>
                  Some (d\<lparr>before_references :=
                          before_references d
                          \<union> job_id ` {j \<in> set js. k \<in> set (before j) \<and> g k \<noteq> None}\<rparr>),
          logs2)"
    by blast
  have same: "(case job_map1 k of
                None \<Rightarrow> None
              | Some d \<Rightarrow>
                  Some (d\<lparr>before_references :=
                          before_references d
                          \<union> job_id ` {j \<in> set js. k \<in> set (before j) \<and> g k \<noteq> None}\<rparr>))
            = (case job_map k of
                None \<Rightarrow> None
              | Some d \<Rightarrow>
                  Some (d\<lparr>before_references :=
                          before_references d
                          \<union> job_id ` {j' \<in> set (j # js). k \<in> set (before j') \<and> g k \<noteq> None}\<rparr>))"
    for k
  proof (cases "job_map k")
    case None
    then show ?thesis by (simp add: job_map1_def)
  next
    case (Some d)
    have sets: "{j' \<in> set (j # js). k \<in> set (before j') \<and> g k \<noteq> None} =
         (if k \<in> set (before j) \<and> g k \<noteq> None then {j} else {})
         \<union> {j' \<in> set js. k \<in> set (before j') \<and> g k \<noteq> None}"
      by auto
    show ?thesis
      unfolding sets using Some by (auto simp: job_map1_def)
  qed
  show ?case
    using first rest by (simp add: same)
qed

lemma filter_impacting_returns:
  "suspend_job_id = AUTO_JOB_ID \<or> suspend_job_id = MANUAL_JOB_ID \<Longrightarrow>
   \<exists>kept. filter_impacting suspend_job_id js = Inr kept"
proof (induction js)
  case Nil
  show ?case by simp
next
  case (Cons j js)
  from is_job_impacting_suspend_returns [OF Cons.prems, of j]
  obtain b where "is_job_impacting_suspend suspend_job_id j = Inr b" by blast
  moreover from Cons.IH [OF Cons.prems]
  obtain kept where "filter_impacting suspend_job_id js = Inr kept" by blast
  ultimately show ?case by simp
qed

lemma get_dependency_set_returns:
  "\<exists>deps. get_dependency_set j (Some job_list) = Inr deps \<and>
          Pair BEFORE ` before_references j \<subseteq> deps"
proof (cases "job_id j = AUTO_JOB_ID \<or> job_id j = MANUAL_JOB_ID")
  case True
  from filter_impacting_returns [OF True, of job_list]
  obtain kept where "filter_impacting (job_id j) job_list = Inr kept" by blast
  with True show ?thesis
    by (auto simp: get_dependency_set_def get_before_suspend_dependency_set_def)
next
  case False
  then show ?thesis
    by (auto simp: get_dependency_set_def)
qed

text \<open>
  Claim C2, amended. Let the job \<open>A\<close> of the job list declare \<open>before: B\<close>, with \<open>B\<close> in
  the active job map and in the global catalog. After \<open>add_before_deps\<close> has run over
  the job list, the dependency set of \<open>B\<close> holds an edge of type \<open>BEFORE\<close> to \<open>A\<close>.
\<close>

theorem before_reference_is_before_edge:
  assumes A: "A \<in> set jobs"
    and B_id: "B_id \<in> set (before A)"
    and active: "job_map B_id = Some B"
    and catalog: "global_job_map B_id \<noteq> None"
  shows "\<exists>deps. dependency_set_after_linking jobs job_map global_job_map B_id (Some job_list)
                  = Inr deps \<and>
               (BEFORE, job_id A) \<in> deps"
proof -
  define B' where "B' = B\<lparr>before_references :=
      before_references B
      \<union> job_id ` {j \<in> set jobs. B_id \<in> set (before j) \<and> global_job_map B_id \<noteq> None}\<rparr>"
  from add_before_deps_all_result [of jobs job_map global_job_map]
  obtain job_map' logs where
    linked: "add_before_deps_all jobs job_map global_job_map = Inr (job_map', logs)"
    and job_map': "job_map' B_id = Some B'"
    using active unfolding B'_def by auto
  have "job_id A \<in> before_references B'"
    using A B_id catalog unfolding B'_def by auto
  moreover from get_dependency_set_returns [of B' job_list]
  obtain deps where "get_dependency_set B' (Some job_list) = Inr deps"
    and "Pair BEFORE ` before_references B' \<subseteq> deps"
    by blast
  ultimately show ?thesis
    using linked job_map' by (auto simp: dependency_set_after_linking_def)
qed

theorem before_reference_is_before_edge_witness:
  "setup_job \<in> set [setup_job, plain_job ''install''] \<and>
   ''install'' \<in> set (before setup_job) \<and>
   dependency_set_after_linking [setup_job, plain_job ''install'']
     [''setup'' \<mapsto> setup_job, ''install'' \<mapsto> plain_job ''install'']
     [''setup'' \<mapsto> setup_job, ''install'' \<mapsto> plain_job ''install'']
     ''install'' (Some [setup_job, plain_job ''install''])
   = Inr {(BEFORE, ''setup'')}"
proof -
  let ?jobs = "[setup_job, plain_job ''install'']"
  let ?map = "[''setup'' \<mapsto> setup_job, ''install'' \<mapsto> plain_job ''install'']"
  have in_jobs: "setup_job \<in> set ?jobs" by simp
  have in_before: "''install'' \<in> set (before setup_job)"
    by (simp add: setup_job_def plain_job_def)
  have active: "?map ''install'' = Some (plain_job ''install'')" by simp
  have catalog: "?map ''install'' \<noteq> None" by simp
  have "dependency_set_after_linking ?jobs ?map ?map ''install'' (Some ?jobs)
          = Inr {(BEFORE, ''setup'')}"
    using before_reference_is_before_edge
      [where A = setup_job and jobs = ?jobs and B_id = "''install''" and job_map = ?map
         and B = "plain_job ''install''" and global_job_map = ?map and job_list = ?jobs,
       OF in_jobs in_before active catalog]
    by (simp add: dependency_set_after_linking_def add_before_deps_def get_dependency_set_def
        setup_job_def plain_job_def AUTO_JOB_ID_def MANUAL_JOB_ID_def)
  with in_jobs in_before show ?thesis by simp
qed

text \<open>
  Claim C2 as stated fails: the back-edge is read out with the type \<open>BEFORE\<close>, and the
  dependency set holds no edge of type \<open>AFTER\<close> to \<open>A\<close>.
\<close>

theorem before_reference_is_not_after_edge_counterexample:
  "dependency_set_after_linking [setup_job, plain_job ''install'']
     [''setup'' \<mapsto> setup_job, ''install'' \<mapsto> plain_job ''install'']
     [''setup'' \<mapsto> setup_job, ''install'' \<mapsto> plain_job ''install'']
     ''install'' (Some [setup_job, plain_job ''install''])
   = Inr {(BEFORE, ''setup'')} \<and>
   (AFTER, ''setup'') \<notin> {(BEFORE, ''setup'')}"
  by (simp add: dependency_set_after_linking_def add_before_deps_def get_dependency_set_def
      setup_job_def plain_job_def AUTO_JOB_ID_def MANUAL_JOB_ID_def)

subsection \<open>Resource results\<close>

text \<open>
  Adding units one by one appends them to the unit collection and changes neither the job
  states nor the resource map. The resources that \<open>_parse_and_store_resource\<close> builds are
  the data of the records that the parser yields, and every record that the generator logs
  is logged.
\<close>

lemma foldl_add_unit:
  "unit_list (foldl (\<lambda>s new_unit. add_unit s new_unit j False) s us) = unit_list s @ us"
  by (induction us arbitrary: s) (auto simp: add_unit_def)

lemma foldl_add_unit_frame:
  "job_state_map (foldl (\<lambda>s new_unit. add_unit s new_unit j False) s us) = job_state_map s \<and>
   resource_map (foldl (\<lambda>s new_unit. add_unit s new_unit j False) s us) = resource_map s \<and>
   metadata_flags (foldl (\<lambda>s new_unit. add_unit s new_unit j False) s us) = metadata_flags s \<and>
   calls (foldl (\<lambda>s new_unit. add_unit s new_unit j False) s us) = calls s"
  by (induction us arbitrary: s) (auto simp: add_unit_def)

lemma store_records_resources:
  "fst (store_records j events) =
     concat (map (\<lambda>e. case e of Yield record \<Rightarrow> [data record] | Log l \<Rightarrow> []) events)"
  by (induction j events rule: store_records.induct) (auto split: prod.splits)

lemma store_records_logs:
  "Log l \<in> set events \<Longrightarrow> l \<in> set (snd (store_records j events))"
  by (induction j events rule: store_records.induct) (auto split: prod.splits)

lemma parsed_resources:
  "fst (store_records j (gen_rfc822_records_from_io_log ev j r)) =
     map data (fst (gen_rfc822_records ev (line_gen ev r)))"
proof -
  obtain records raised where parsed: "gen_rfc822_records ev (line_gen ev r) = (records, raised)"
    by (cases "gen_rfc822_records ev (line_gen ev r)")
  have yields: "concat (map (\<lambda>e. case e of Yield record \<Rightarrow> [data record] | Log l \<Rightarrow> [])
                  (map Yield records)) = map data records" for records :: "rfc822_record list"
    by (induction records) auto
  show ?thesis
    unfolding store_records_resources gen_rfc822_records_from_io_log_def parsed
    by (cases raised) (auto simp: yields [unfolded map_map] split: syntax_error.splits)
qed

lemma parse_and_store_resource_result:
  assumes "outcome r \<noteq> OUTCOME_NONE"
  shows "parse_and_store_resource ev s j r =
           (set_resource_list s (job_id j)
              (if fst (gen_rfc822_records ev (line_gen ev r)) = [] then [[]]
               else map data (fst (gen_rfc822_records ev (line_gen ev r)))),
            snd (store_records j (gen_rfc822_records_from_io_log ev j r)))"
proof -
  obtain new_resource_list logs where
    stored: "store_records j (gen_rfc822_records_from_io_log ev j r) = (new_resource_list, logs)"
    by (cases "store_records j (gen_rfc822_records_from_io_log ev j r)")
  from parsed_resources [of j ev r] stored
  have "new_resource_list = map data (fst (gen_rfc822_records ev (line_gen ev r)))" by simp
  with assms stored show ?thesis
    by (simp add: parse_and_store_resource_def)
qed

text \<open>
  With a result whose outcome is \<open>NONE\<close> nothing is parsed and no template is
  instantiated; then \<open>_process_resource_result\<close> looks the job up in the resource map:
  with an entry the call changes nothing, without one the lookup raises \<open>KeyError\<close>.
\<close>

lemma process_resource_result_none:
  "outcome r = OUTCOME_NONE \<Longrightarrow>
   process_resource_result ev s j r fake_resources =
     (case map_of (resource_map s) (job_id j) of
        None \<Rightarrow> Inl (KeyError (job_id j))
      | Some stored \<Rightarrow> Inr (s, []))"
  by (simp add: process_resource_result_def parse_and_store_resource_def
      instantiate_templates_def split: option.splits)

text \<open>
  Claim C3 says that the call with a result of outcome \<open>NONE\<close> returns, leaving the
  resource map and the unit collection unchanged, also when the resource map has no entry
  for the job. In a session whose resource map has no entry for the resource job, the call
  raises \<open>KeyError\<close>, and so does \<open>observe_result\<close>.
\<close>

theorem process_resource_result_none_raises:
  "process_resource_result disk_env (disk_session {}) disk_job
     \<lparr>outcome = OUTCOME_NONE, io_log = []\<rparr> False = Inl (KeyError ''disk'') \<and>
   observe_result disk_env (disk_session {}) disk_job
     \<lparr>outcome = OUTCOME_NONE, io_log = []\<rparr> False = Inl (KeyError ''disk'')"
  by (simp add: observe_result_def process_resource_result_def parse_and_store_resource_def
      disk_session_def disk_job_def with_outcome_def plain_job_def)

text \<open>
  Claim C5. When the result of a resource job has an outcome other than \<open>NONE\<close> and
  parses into no record, the entry of the job in the resource map becomes the list of
  exactly one empty resource; no template is instantiated: the unit collection, the
  provenance, the job states and the calls on the session (so no recomputation) are as
  before, and so are the other entries of the resource map.
\<close>

theorem empty_resource_is_one_empty_record:
  assumes ran: "outcome r \<noteq> OUTCOME_NONE"
    and none: "fst (gen_rfc822_records ev (line_gen ev r)) = []"
  shows "\<exists>s' logs. process_resource_result ev s j r fake_resources = Inr (s', logs) \<and>
           map_of (resource_map s') (job_id j) = Some [[]] \<and>
           (\<forall>k. k \<noteq> job_id j \<longrightarrow> map_of (resource_map s') k = map_of (resource_map s) k) \<and>
           unit_list s' = unit_list s \<and>
           provenance s' = provenance s \<and>
           job_state_map s' = job_state_map s \<and>
           calls s' = calls s"
  using ran none
  by (simp add: process_resource_result_def parse_and_store_resource_result
      set_resource_list_def update_conv')

theorem empty_resource_is_one_empty_record_witness:
  "outcome (stdout_result []) \<noteq> OUTCOME_NONE \<and>
   fst (gen_rfc822_records disk_env (line_gen disk_env (stdout_result []))) = [] \<and>
   (\<exists>s' logs. process_resource_result disk_env (disk_session {}) disk_job (stdout_result []) False
                 = Inr (s', logs) \<and>
              resource_map s' = [(''disk'', [[]])] \<and>
              unit_list s' = [JobDefinition disk_job, TemplateUnit disk_template])"
proof -
  have ran: "outcome (stdout_result []) \<noteq> OUTCOME_NONE"
    by (simp add: stdout_result_def)
  have none: "fst (gen_rfc822_records disk_env (line_gen disk_env (stdout_result []))) = []"
    by (simp add: disk_env_def line_gen_def stdout_result_def end_of_paragraph_def)
  from empty_resource_is_one_empty_record [OF ran none, of "disk_session {}" disk_job False]
  obtain s' logs where
    "process_resource_result disk_env (disk_session {}) disk_job (stdout_result []) False
       = Inr (s', logs)"
    and "unit_list s' = unit_list (disk_session {})"
    by blast
  moreover have "process_resource_result disk_env (disk_session {}) disk_job (stdout_result []) False
      = Inr ((disk_session {})\<lparr>resource_map := [(''disk'', [[]])]\<rparr>,
             snd (store_records disk_job
                    (gen_rfc822_records_from_io_log disk_env disk_job (stdout_result []))))"
    using ran none
    by (simp add: process_resource_result_def parse_and_store_resource_result
        set_resource_list_def disk_session_def disk_job_def plain_job_def)
  ultimately show ?thesis
    using ran none by (auto simp: disk_session_def)
qed

text \<open>
  Claim C6, amended. When the parser raises a syntax error after it has yielded some
  records, the processing of the resource job still returns: the records yielded before the
  error are stored (one empty resource when there is none), nothing that follows the
  malformed paragraph is, and the warning is logged.
\<close>

theorem malformed_paragraph_ends_parsing:
  assumes ran: "outcome r \<noteq> OUTCOME_NONE"
    and parsed: "gen_rfc822_records ev (line_gen ev r) = (records, Some (RFC822SyntaxError exc))"
  shows "\<exists>s' logs. process_resource_result ev s j r fake_resources = Inr (s', logs) \<and>
           map_of (resource_map s') (job_id j) =
             Some (if records = [] then [[]] else map data records) \<and>
           (WARNING, ''local script %s returned invalid RFC822 data: %s'',
            [Text (job_id j), Text exc]) \<in> set logs \<and>
           gen_rfc822_records_from_io_log ev j r =
             Log (DEBUG, ''processing output from a job: %r'', [JobRef (job_id j)])
             # map Yield records
             @ [Log (WARNING, ''local script %s returned invalid RFC822 data: %s'',
                     [Text (job_id j), Text exc])]"
proof -
  let ?warning = "(WARNING, ''local script %s returned invalid RFC822 data: %s'',
            [Text (job_id j), Text exc])"
  let ?logs1 = "snd (store_records j (gen_rfc822_records_from_io_log ev j r))"
  let ?stored = "if records = [] then [[]] else map data records"
  let ?s1 = "set_resource_list s (job_id j) ?stored"
  have events: "gen_rfc822_records_from_io_log ev j r =
             Log (DEBUG, ''processing output from a job: %r'', [JobRef (job_id j)])
             # map Yield records @ [Log ?warning]"
    by (simp add: gen_rfc822_records_from_io_log_def parsed)
  have "Log ?warning \<in> set (gen_rfc822_records_from_io_log ev j r)"
    unfolding events by simp
  then have warned: "?warning \<in> set ?logs1"
    by (rule store_records_logs)
  have first: "parse_and_store_resource ev s j r = (?s1, ?logs1)"
    using ran parsed by (simp add: parse_and_store_resource_result)
  have lookup: "map_of (resource_map ?s1) (job_id j) = Some ?stored"
    by (simp add: set_resource_list_def update_conv')
  show ?thesis
  proof (cases "?stored = [[]]")
    case True
    then have "process_resource_result ev s j r fake_resources = Inr (?s1, ?logs1)"
      using first lookup by (simp add: process_resource_result_def)
    with lookup warned events show ?thesis by blast
  next
    case False
    obtain s2 logs2 where second:
      "instantiate_templates ev ?s1 j r fake_resources = Inr (s2, logs2)"
      and same: "resource_map s2 = resource_map ?s1"
      using ran lookup
      by (auto simp: instantiate_templates_def Let_def foldl_add_unit_frame)
    have "process_resource_result ev s j r fake_resources = Inr (s2, ?logs1 @ logs2)"
      using first lookup False second by (simp add: process_resource_result_def)
    moreover have "map_of (resource_map s2) (job_id j) = Some ?stored"
      using same lookup by simp
    moreover have "?warning \<in> set (?logs1 @ logs2)" using warned by simp
    ultimately show ?thesis using events by blast
  qed
qed

theorem malformed_paragraph_ends_parsing_witness:
  "outcome (stdout_result [''id: sda'', '''', ''id: sdb'', '''', ''garbage'', '''', ''id: sdc''])
     \<noteq> OUTCOME_NONE \<and>
   gen_rfc822_records disk_env
     (line_gen disk_env
        (stdout_result [''id: sda'', '''', ''id: sdb'', '''', ''garbage'', '''', ''id: sdc'']))
     = ([\<lparr>data = [(''id'', ''sda'')]\<rparr>, \<lparr>data = [(''id'', ''sdb'')]\<rparr>],
        Some (RFC822SyntaxError ''Unexpected non-empty line: garbage'')) \<and>
   (\<exists>s' logs.
      process_resource_result disk_env (disk_session {}) disk_job
        (stdout_result [''id: sda'', '''', ''id: sdb'', '''', ''garbage'', '''', ''id: sdc''])
        False = Inr (s', logs) \<and>
      map_of (resource_map s') ''disk'' = Some [[(''id'', ''sda'')], [(''id'', ''sdb'')]] \<and>
      (WARNING, ''local script %s returned invalid RFC822 data: %s'',
       [Text ''disk'', Text ''Unexpected non-empty line: garbage'']) \<in> set logs)"
proof -
  let ?r = "stdout_result [''id: sda'', '''', ''id: sdb'', '''', ''garbage'', '''', ''id: sdc'']"
  have ran: "outcome ?r \<noteq> OUTCOME_NONE"
    by (simp add: stdout_result_def)
  have parsed: "gen_rfc822_records disk_env (line_gen disk_env ?r)
     = ([\<lparr>data = [(''id'', ''sda'')]\<rparr>, \<lparr>data = [(''id'', ''sdb'')]\<rparr>],
        Some (RFC822SyntaxError ''Unexpected non-empty line: garbage''))"
    by (simp add: disk_env_def line_gen_def stdout_result_def end_of_paragraph_def
        strip_def is_space_def)
  have id_disk: "job_id disk_job = ''disk''"
    by (simp add: disk_job_def plain_job_def)
  from malformed_paragraph_ends_parsing [OF ran parsed, of "disk_session {}" disk_job False]
  show ?thesis
    using ran parsed by (auto simp: id_disk)
qed

text \<open>For the parser above, what follows a malformed line is never read.\<close>

lemma lines_after_syntax_error_are_not_read:
  "strip bad \<noteq> [] \<Longrightarrow> CHR '':'' \<notin> set bad \<Longrightarrow>
   parse_paragraphs (before_lines @ bad # after_lines) current =
   parse_paragraphs (before_lines @ [bad]) current"
  by (induction before_lines arbitrary: current) auto

text \<open>
  Claim C6 as stated fails: a well-formed paragraph that follows the malformed one is not
  kept, although alone it parses into a record.
\<close>

theorem paragraphs_after_malformed_one_counterexample:
  "gen_rfc822_records_from_io_log disk_env disk_job
     (stdout_result [''id: sda'', '''', ''garbage'', '''', ''id: sdc''])
   = [Log (DEBUG, ''processing output from a job: %r'', [JobRef ''disk'']),
      Yield \<lparr>data = [(''id'', ''sda'')]\<rparr>,
      Log (WARNING, ''local script %s returned invalid RFC822 data: %s'',
           [Text ''disk'', Text ''Unexpected non-empty line: garbage''])] \<and>
   Yield \<lparr>data = [(''id'', ''sdc'')]\<rparr>
     \<notin> set (gen_rfc822_records_from_io_log disk_env disk_job
              (stdout_result [''id: sda'', '''', ''garbage'', '''', ''id: sdc''])) \<and>
   gen_rfc822_records_from_io_log disk_env disk_job (stdout_result [''id: sdc''])
   = [Log (DEBUG, ''processing output from a job: %r'', [JobRef ''disk'']),
      Yield \<lparr>data = [(''id'', ''sdc'')]\<rparr>]"
  by (simp add: gen_rfc822_records_from_io_log_def disk_env_def line_gen_def stdout_result_def
      end_of_paragraph_def strip_def is_space_def disk_job_def plain_job_def)

subsection \<open>Template instantiation\<close>

text \<open>
  The filter of the lenient mode keeps the candidates that validate; the strict mode maps a
  candidate to itself when it validates and to its placeholder otherwise.
\<close>

lemma filter_invalid_log_keeps:
  "fst (filter_invalid_log ev u) = validates ev u"
  by (cases "check ev u")
     (simp_all add: filter_invalid_log_def validates_def Let_def filter_empty_conv list_ex_iff)

lemma wrap_invalid_units_unit:
  "fst (wrap_invalid_units ev u) =
     (if validates ev u then JobDefinition u else InvalidJob u (validation_errors ev u))"
  by (cases "check ev u")
     (simp_all add: wrap_invalid_units_def validates_def validation_errors_def Let_def
        filter_empty_conv list_ex_iff)

lemma wrapped_units:
  "concat (map fst (map (\<lambda>u. case wrap_invalid_units ev u of
                               (new_unit, logs) \<Rightarrow> ([new_unit], logs)) candidates)) =
   map (\<lambda>u. fst (wrap_invalid_units ev u)) candidates"
  by (induction candidates) (auto split: prod.splits)

lemma kept_units:
  "concat (map fst (map (\<lambda>u. case filter_invalid_log ev u of
                               (keep, logs) \<Rightarrow>
                                 (if keep then [JobDefinition u] else [], logs)) candidates)) =
   map JobDefinition (filter (\<lambda>u. fst (filter_invalid_log ev u)) candidates)"
  by (induction candidates) (auto split: prod.splits)

lemma instantiate_templates_units:
  assumes ran: "outcome r \<noteq> OUTCOME_NONE"
    and lookup: "map_of (resource_map s) (job_id j) = Some parsed_resource"
  shows "\<exists>s' logs. instantiate_templates ev s j r fake_resources = Inr (s', logs) \<and>
           unit_list s' = unit_list s @
             (if FLAG_FEATURE_STRICT_TEMPLATE_EXPANSION \<in> metadata_flags s
              then map (\<lambda>u. if validates ev u then JobDefinition u
                             else InvalidJob u (validation_errors ev u))
                     (new_units ev s j parsed_resource fake_resources)
              else map JobDefinition
                     (filter (validates ev) (new_units ev s j parsed_resource fake_resources))) \<and>
           resource_map s' = resource_map s"
  using ran lookup
  by (simp add: instantiate_templates_def Let_def foldl_add_unit foldl_add_unit_frame
      wrapped_units [unfolded map_map] kept_units [unfolded map_map]
      filter_invalid_log_keeps wrap_invalid_units_unit)

lemma new_units_blocks:
  "new_units ev s j parsed_resource fake_resources =
     concat (map (\<lambda>t. map (\<lambda>r. instantiate_one ev t r fake_resources) parsed_resource)
               (template_units s j))"
  by (simp add: new_units_def instantiate_all_def)

text \<open>
  Claim C4. Let the result of a resource job have an outcome other than \<open>NONE\<close> and parse
  into \<open>n \<ge> 1\<close> records (not the single empty resource). In strict mode every
  template bound to the job contributes exactly \<open>n\<close> units, one for each record in
  order: the candidate when it validates, and otherwise the placeholder \<open>InvalidJob\<close> that
  holds the candidate (so its id) and its validation errors. In lenient mode, when all
  candidates validate, every template bound to the job contributes its \<open>n\<close> candidates.
  In both cases the units are appended to the unit collection.
\<close>

theorem template_instantiation_counts:
  assumes ran: "outcome r \<noteq> OUTCOME_NONE"
    and parsed: "fst (gen_rfc822_records ev (line_gen ev r)) = records"
    and some: "records \<noteq> []"
    and not_sentinel: "map data records \<noteq> [[]]"
  shows "\<exists>s' logs. process_resource_result ev s j r fake_resources = Inr (s', logs) \<and>
           (FLAG_FEATURE_STRICT_TEMPLATE_EXPANSION \<in> metadata_flags s \<longrightarrow>
              unit_list s' = unit_list s @
                concat (map (\<lambda>t. map (\<lambda>record.
                                        if validates ev (instantiate_one ev t (data record) fake_resources)
                                        then JobDefinition (instantiate_one ev t (data record) fake_resources)
                                        else InvalidJob (instantiate_one ev t (data record) fake_resources)
                                               (validation_errors ev
                                                  (instantiate_one ev t (data record) fake_resources)))
                                   records)
                          (template_units s j)) \<and>
              length (unit_list s') =
                length (unit_list s) + length (template_units s j) * length records) \<and>
           (FLAG_FEATURE_STRICT_TEMPLATE_EXPANSION \<notin> metadata_flags s \<and>
            (\<forall>t \<in> set (template_units s j). \<forall>record \<in> set records.
               validates ev (instantiate_one ev t (data record) fake_resources)) \<longrightarrow>
              unit_list s' = unit_list s @
                concat (map (\<lambda>t. map (\<lambda>record.
                                        JobDefinition (instantiate_one ev t (data record) fake_resources))
                                   records)
                          (template_units s j)) \<and>
              length (unit_list s') =
                length (unit_list s) + length (template_units s j) * length records)"
proof -
  let ?stored = "map data records"
  let ?s1 = "set_resource_list s (job_id j) ?stored"
  let ?logs1 = "snd (store_records j (gen_rfc822_records_from_io_log ev j r))"
  let ?inst = "\<lambda>t record. instantiate_one ev t (data record) fake_resources"
  let ?wrap = "\<lambda>u. if validates ev u then JobDefinition u else InvalidJob u (validation_errors ev u)"
  have first: "parse_and_store_resource ev s j r = (?s1, ?logs1)"
    using ran parsed some by (simp add: parse_and_store_resource_result)
  have lookup: "map_of (resource_map ?s1) (job_id j) = Some ?stored"
    by (simp add: set_resource_list_def update_conv')
  have units: "unit_list ?s1 = unit_list s" and flags: "metadata_flags ?s1 = metadata_flags s"
    and templates: "template_units ?s1 j = template_units s j"
    by (simp_all add: set_resource_list_def template_units_def)
  have candidates: "new_units ev ?s1 j ?stored fake_resources =
      concat (map (\<lambda>t. map (?inst t) records) (template_units s j))"
    by (simp add: new_units_blocks templates comp_def)
  from instantiate_templates_units [OF ran lookup, of ev fake_resources]
  obtain s2 logs2 where second:
    "instantiate_templates ev ?s1 j r fake_resources = Inr (s2, logs2)"
    and units2: "unit_list s2 = unit_list s @
             (if FLAG_FEATURE_STRICT_TEMPLATE_EXPANSION \<in> metadata_flags s
              then map ?wrap (concat (map (\<lambda>t. map (?inst t) records) (template_units s j)))
              else map JobDefinition
                     (filter (validates ev)
                        (concat (map (\<lambda>t. map (?inst t) records) (template_units s j)))))"
    unfolding candidates units flags by blast
  have whole: "process_resource_result ev s j r fake_resources = Inr (s2, ?logs1 @ logs2)"
    using first lookup not_sentinel second by (simp add: process_resource_result_def)
  have count: "length (concat (map (\<lambda>t. map (f t) records) ts)) = length ts * length records"
    for f :: "template_unit \<Rightarrow> rfc822_record \<Rightarrow> unit" and ts
    by (induction ts) auto
  have strict: "unit_list s2 = unit_list s @
        concat (map (\<lambda>t. map (\<lambda>record. ?wrap (?inst t record)) records) (template_units s j))"
    if "FLAG_FEATURE_STRICT_TEMPLATE_EXPANSION \<in> metadata_flags s"
    using that units2 by (simp add: map_concat comp_def)
  have lenient: "unit_list s2 = unit_list s @
        concat (map (\<lambda>t. map (\<lambda>record. JobDefinition (?inst t record)) records)
                  (template_units s j))"
    if lenient_mode: "FLAG_FEATURE_STRICT_TEMPLATE_EXPANSION \<notin> metadata_flags s"
      and valid: "\<forall>t \<in> set (template_units s j). \<forall>record \<in> set records.
               validates ev (?inst t record)"
  proof -
    have "filter (validates ev) (concat (map (\<lambda>t. map (?inst t) records) (template_units s j)))
          = concat (map (\<lambda>t. map (?inst t) records) (template_units s j))"
      using valid by (auto simp: filter_id_conv)
    with lenient_mode units2 show ?thesis
      by (simp add: map_concat comp_def)
  qed
  show ?thesis
    using whole strict lenient by (auto simp: count)
qed

lemmas disk_defs =
  disk_env_def disk_job_def disk_template_def disk_session_def stdout_result_def
  line_gen_def end_of_paragraph_def strip_def is_space_def plain_job_def with_outcome_def
  template_units_def validates_def validation_errors_def
  FLAG_FEATURE_STRICT_TEMPLATE_EXPANSION_def

theorem template_instantiation_counts_witness:
  "(\<exists>s' logs.
      process_resource_result disk_env (disk_session {FLAG_FEATURE_STRICT_TEMPLATE_EXPANSION})
        disk_job (stdout_result [''id: sda'', '''', ''id: sdb'']) False = Inr (s', logs) \<and>
      unit_list s' =
        [JobDefinition disk_job, TemplateUnit disk_template,
         JobDefinition (plain_job ''disk/test_sda''),
         InvalidJob (plain_job ''disk/test_sdb'')
           [IssueError \<lparr>severity = Severity_error, issue_text = ''no command''\<rparr>]]) \<and>
   (\<exists>s' logs.
      process_resource_result disk_env (disk_session {})
        disk_job (stdout_result [''id: sda'', '''', ''id: sdc'']) False = Inr (s', logs) \<and>
      unit_list s' =
        [JobDefinition disk_job, TemplateUnit disk_template,
         JobDefinition (plain_job ''disk/test_sda''),
         JobDefinition (plain_job ''disk/test_sdc'')])"
proof -
  let ?strict = "disk_session {FLAG_FEATURE_STRICT_TEMPLATE_EXPANSION}"
  let ?lenient = "disk_session {}"
  let ?r1 = "stdout_result [''id: sda'', '''', ''id: sdb'']"
  let ?r2 = "stdout_result [''id: sda'', '''', ''id: sdc'']"
  let ?records1 = "[\<lparr>data = [(''id'', ''sda'')]\<rparr>, \<lparr>data = [(''id'', ''sdb'')]\<rparr>]"
  let ?records2 = "[\<lparr>data = [(''id'', ''sda'')]\<rparr>, \<lparr>data = [(''id'', ''sdc'')]\<rparr>]"
  have ran: "outcome ?r1 \<noteq> OUTCOME_NONE" "outcome ?r2 \<noteq> OUTCOME_NONE"
    by (simp_all add: stdout_result_def)
  have parsed1: "fst (gen_rfc822_records disk_env (line_gen disk_env ?r1)) = ?records1"
    by (simp add: disk_defs)
  have parsed2: "fst (gen_rfc822_records disk_env (line_gen disk_env ?r2)) = ?records2"
    by (simp add: disk_defs)
  have some: "?records1 \<noteq> []" "?records2 \<noteq> []" by simp_all
  have not_sentinel: "map data ?records1 \<noteq> [[]]" "map data ?records2 \<noteq> [[]]" by simp_all
  have templates: "template_units ?strict disk_job = [disk_template]"
    "template_units ?lenient disk_job = [disk_template]"
    by (simp_all add: disk_defs)
  have made: "instantiate_one disk_env disk_template [(''id'', v)] False =
      plain_job (''disk/test_'' @ v)" for v
    by (simp add: disk_env_def disk_template_def)
  have checks: "validates disk_env (plain_job ''disk/test_sda'')"
    "validates disk_env (plain_job ''disk/test_sdc'')"
    "\<not> validates disk_env (plain_job ''disk/test_sdb'')"
    "validation_errors disk_env (plain_job ''disk/test_sdb'') =
       [IssueError \<lparr>severity = Severity_error, issue_text = ''no command''\<rparr>]"
    by (simp_all add: disk_defs)
  have units: "unit_list ?strict = [JobDefinition disk_job, TemplateUnit disk_template]"
    "unit_list ?lenient = [JobDefinition disk_job, TemplateUnit disk_template]"
    by (simp_all add: disk_session_def)
  have flags: "FLAG_FEATURE_STRICT_TEMPLATE_EXPANSION \<in> metadata_flags ?strict"
    "FLAG_FEATURE_STRICT_TEMPLATE_EXPANSION \<notin> metadata_flags ?lenient"
    by (simp_all add: disk_session_def)
  from template_instantiation_counts
    [OF ran(1) parsed1 some(1) not_sentinel(1), of ?strict disk_job False]
  have strict_mode: "\<exists>s' logs.
      process_resource_result disk_env ?strict disk_job ?r1 False = Inr (s', logs) \<and>
      unit_list s' =
        [JobDefinition disk_job, TemplateUnit disk_template,
         JobDefinition (plain_job ''disk/test_sda''),
         InvalidJob (plain_job ''disk/test_sdb'')
           [IssueError \<lparr>severity = Severity_error, issue_text = ''no command''\<rparr>]]"
    using flags(1) by (auto simp: templates made checks units)
  from template_instantiation_counts
    [OF ran(2) parsed2 some(2) not_sentinel(2), of ?lenient disk_job False]
  have lenient_mode: "\<exists>s' logs.
      process_resource_result disk_env ?lenient disk_job ?r2 False = Inr (s', logs) \<and>
      unit_list s' =
        [JobDefinition disk_job, TemplateUnit disk_template,
         JobDefinition (plain_job ''disk/test_sda''),
         JobDefinition (plain_job ''disk/test_sdc'')]"
    using flags(2) by (auto simp: templates made checks units)
  from strict_mode lenient_mode show ?thesis by blast
qed

subsection \<open>Jobs without declarations\<close>

text \<open>
  The loop of \<open>_get_suspend_inhibitor_list\<close> for a checkpoint id, over job states of
  which those that are desired and accepted by the test are stored under the id of their
  job: one \<open>PENDING_DEP\<close> inhibitor for each of them whose outcome is \<open>NONE\<close>, in the
  order of the job state map.
\<close>

lemma suspend_inhibitors_of_entries:
  assumes checkpoint: "suspend_job_id = AUTO_JOB_ID \<or> suspend_job_id = MANUAL_JOB_ID"
    and stored: "\<forall>(k, state) \<in> set entries.
         undesired_inhibitor \<notin> set (readiness_inhibitor_list state) \<and>
         is_job_impacting_suspend suspend_job_id (job state) = Inr True \<longrightarrow>
         job_state_of s (job_id (job state)) = Inr state"
  shows "for_each (suspend_inhibitor_step s suspend_job_id)
           (map (\<lambda>(k, state). job state)
              (filter (\<lambda>(k, state). undesired_inhibitor \<notin> set (readiness_inhibitor_list state))
                 entries)) =
         Inr (map (\<lambda>(k, state). \<lparr>cause = PENDING_DEP, related_job = Some (job state),
                                   related_expression = None\<rparr>)
                (filter (\<lambda>(k, state).
                           undesired_inhibitor \<notin> set (readiness_inhibitor_list state) \<and>
                           is_job_impacting_suspend suspend_job_id (job state) = Inr True \<and>
                           outcome (result state) = OUTCOME_NONE)
                   entries))"
  using stored
proof (induction entries)
  case Nil
  show ?case by simp
next
  case (Cons entry entries)
  obtain k state where entry: "entry = (k, state)" by (cases entry)
  from Cons.prems have rest: "\<forall>(k, state) \<in> set entries.
         undesired_inhibitor \<notin> set (readiness_inhibitor_list state) \<and>
         is_job_impacting_suspend suspend_job_id (job state) = Inr True \<longrightarrow>
         job_state_of s (job_id (job state)) = Inr state"
    by simp
  note IH = Cons.IH [OF rest]
  show ?case
  proof (cases "undesired_inhibitor \<in> set (readiness_inhibitor_list state)")
    case True
    with IH show ?thesis by (simp add: entry)
  next
    case desired: False
    from is_job_impacting_suspend_returns [OF checkpoint, of "job state"]
    obtain b where b: "is_job_impacting_suspend suspend_job_id (job state) = Inr b" by blast
    show ?thesis
    proof (cases b)
      case False
      with b desired IH show ?thesis
        by (simp add: entry suspend_inhibitor_step_def)
    next
      case True
      with b desired Cons.prems have "job_state_of s (job_id (job state)) = Inr state"
        by (simp add: entry)
      with True b desired IH show ?thesis
        by (simp add: entry suspend_inhibitor_step_def)
    qed
  qed
qed

text \<open>
  Claim C8, amended. A job with no requirement program and with empty \<open>depends\<close>,
  \<open>after\<close> and \<open>salvage\<close> lists has an empty inhibitor list in every session state,
  unless it is one of the two suspend checkpoint jobs. A checkpoint job without
  declarations gets exactly one \<open>PENDING_DEP\<close> inhibitor for every job state of the
  session that is not marked \<open>UNDESIRED\<close>, that the test \<open>_is_job_impacting_suspend\<close>
  accepts for the checkpoint and whose outcome is \<open>NONE\<close> (the job states that are not
  marked and that the test accepts being stored under the id of their job); so its list is
  empty when there is no such job state.
\<close>

theorem inhibitors_without_declarations:
  assumes no_program: "resource_program J = None"
    and no_depends: "depends J = []"
    and no_after: "after J = []"
    and no_salvage: "salvage J = []"
    and stored:
      "job_id J = AUTO_JOB_ID \<or> job_id J = MANUAL_JOB_ID \<Longrightarrow>
       \<forall>(k, state) \<in> set (job_state_map s).
         undesired_inhibitor \<notin> set (readiness_inhibitor_list state) \<and>
         is_job_impacting_suspend (job_id J) (job state) = Inr True \<longrightarrow>
         map_of (job_state_map s) (job_id (job state)) = Some state"
  shows "get_inhibitor_list ev s J =
           Inr (if job_id J = AUTO_JOB_ID \<or> job_id J = MANUAL_JOB_ID
                then map (\<lambda>(k, state). \<lparr>cause = PENDING_DEP, related_job = Some (job state),
                                          related_expression = None\<rparr>)
                       (filter (\<lambda>(k, state).
                                  undesired_inhibitor \<notin> set (readiness_inhibitor_list state) \<and>
                                  is_job_impacting_suspend (job_id J) (job state) = Inr True \<and>
                                  outcome (result state) = OUTCOME_NONE)
                          (job_state_map s))
                else [])"
proof (cases "job_id J = AUTO_JOB_ID \<or> job_id J = MANUAL_JOB_ID")
  case False
  with no_program no_depends no_after no_salvage show ?thesis
    by (simp add: get_inhibitor_list_def resource_inhibitors_def)
next
  case True
  from stored [OF True] have "\<forall>(k, state) \<in> set (job_state_map s).
         undesired_inhibitor \<notin> set (readiness_inhibitor_list state) \<and>
         is_job_impacting_suspend (job_id J) (job state) = Inr True \<longrightarrow>
         job_state_of s (job_id (job state)) = Inr state"
    by (auto simp: job_state_of_def)
  from suspend_inhibitors_of_entries [OF True this]
  have "get_suspend_inhibitor_list s J =
          Inr (map (\<lambda>(k, state). \<lparr>cause = PENDING_DEP, related_job = Some (job state),
                                    related_expression = None\<rparr>)
                 (filter (\<lambda>(k, state).
                            undesired_inhibitor \<notin> set (readiness_inhibitor_list state) \<and>
                            is_job_impacting_suspend (job_id J) (job state) = Inr True \<and>
                            outcome (result state) = OUTCOME_NONE)
                    (job_state_map s)))"
    by (simp add: get_suspend_inhibitor_list_def)
  with True no_program no_depends no_after no_salvage show ?thesis
    by (auto simp: get_inhibitor_list_def resource_inhibitors_def)
qed

lemmas suspend_example_defs =
  mixed_suspend_session_def manual_suspend_session_def printer_job_def dock_job_def
  example_defs

theorem inhibitors_without_declarations_witness:
  "get_inhibitor_list quiet_env suspend_session (plain_job AUTO_JOB_ID) =
     Inr [\<lparr>cause = PENDING_DEP, related_job = Some wifi_job, related_expression = None\<rparr>] \<and>
   get_inhibitor_list quiet_env suspend_session (plain_job ''usb/detect'') = Inr []"
proof -
  let ?C = "plain_job AUTO_JOB_ID"
  let ?usb = "plain_job ''usb/detect''"
  have empty: "resource_program ?C = None" "depends ?C = []" "after ?C = []" "salvage ?C = []"
    "resource_program ?usb = None" "depends ?usb = []" "after ?usb = []" "salvage ?usb = []"
    by (simp_all add: plain_job_def)
  have stored: "\<forall>(k, state) \<in> set (job_state_map suspend_session).
         undesired_inhibitor \<notin> set (readiness_inhibitor_list state) \<and>
         is_job_impacting_suspend (job_id ?C) (job state) = Inr True \<longrightarrow>
         map_of (job_state_map suspend_session) (job_id (job state)) = Some state"
    by (simp add: example_defs)
  have not_checkpoint: "\<not> (job_id ?usb = AUTO_JOB_ID \<or> job_id ?usb = MANUAL_JOB_ID)"
    by (simp add: plain_job_def AUTO_JOB_ID_def MANUAL_JOB_ID_def)
  have checkpoint: "job_id ?C = AUTO_JOB_ID \<or> job_id ?C = MANUAL_JOB_ID"
    by (simp add: plain_job_def)
  have linked: "filter (\<lambda>(k, state).
                   undesired_inhibitor \<notin> set (readiness_inhibitor_list state) \<and>
                   is_job_impacting_suspend (job_id ?C) (job state) = Inr True \<and>
                   outcome (result state) = OUTCOME_NONE)
                 (job_state_map suspend_session) = [with_outcome wifi_job OUTCOME_NONE]"
    by (simp add: example_defs)
  have "get_inhibitor_list quiet_env suspend_session ?C =
     Inr [\<lparr>cause = PENDING_DEP, related_job = Some wifi_job, related_expression = None\<rparr>]"
    using inhibitors_without_declarations
      [of ?C suspend_session quiet_env, OF empty(1-4) stored] checkpoint
    unfolding linked by (simp add: with_outcome_def)
  moreover have "get_inhibitor_list quiet_env suspend_session ?usb = Inr []"
    using inhibitors_without_declarations
      [of ?usb suspend_session quiet_env, OF empty(5-8)] not_checkpoint
    by simp
  ultimately show ?thesis by simp
qed

text \<open>
  Claim C8 as stated fails for the suspend checkpoint jobs: a checkpoint job without any
  declaration is inhibited by a job of the session that carries its flag and has not run.
\<close>

theorem suspend_job_without_declarations_counterexample:
  "depends (plain_job AUTO_JOB_ID) = [] \<and>
   after (plain_job AUTO_JOB_ID) = [] \<and>
   salvage (plain_job AUTO_JOB_ID) = [] \<and>
   resource_program (plain_job AUTO_JOB_ID) = None \<and>
   before_references (plain_job AUTO_JOB_ID) = {} \<and>
   get_inhibitor_list quiet_env
     (session_of [with_outcome (plain_job AUTO_JOB_ID) OUTCOME_NONE,
                  with_outcome ((plain_job ''wifi/scan'')\<lparr>flags := Some ''also-after-suspend''\<rparr>)
                    OUTCOME_NONE])
     (plain_job AUTO_JOB_ID)
   = Inr [\<lparr>cause = PENDING_DEP,
            related_job = Some ((plain_job ''wifi/scan'')\<lparr>flags := Some ''also-after-suspend''\<rparr>),
            related_expression = None\<rparr>]"
  by (simp add: get_inhibitor_list_def resource_inhibitors_def get_suspend_inhibitor_list_def
      suspend_inhibitor_step_def is_job_impacting_suspend_def expected_flag_def
      job_state_of_def undesired_inhibitor_def session_of_def with_outcome_def plain_job_def
      AUTO_JOB_ID_def MANUAL_JOB_ID_def AUTO_FLAG_def MANUAL_FLAG_def
      sublist_code(3) prefix_code(2))

subsection \<open>A checkpoint and the flag of the other checkpoint\<close>

text \<open>
  Claim C7 says that a suspend checkpoint job \<open>C\<close> without other edges, with exactly one
  linked job \<open>L\<close> that is not marked \<open>UNDESIRED\<close> (\<open>L\<close> carries the flag of \<open>C\<close> or
  declares a sibling that depends on \<open>C\<close>), gets exactly one \<open>PENDING_DEP\<close> inhibitor,
  for \<open>L\<close>, when the outcome of \<open>L\<close> is \<open>NONE\<close>, and an empty list once the outcome of
  \<open>L\<close> is \<open>PASS\<close>. The test searches the flags text of a job for the flag of the
  checkpoint, and the flag of the automatic checkpoint is the beginning of the flag of the
  manual one. In a session with the automatic checkpoint, the job \<open>wifi/scan\<close> that
  carries its flag and the job \<open>printer/test\<close> that carries only the flag of the manual
  checkpoint and has no sibling, the checkpoint gets two inhibitors, and the one for
  \<open>printer/test\<close> stays when \<open>wifi/scan\<close> has passed.
\<close>

theorem manual_flag_inhibits_auto_checkpoint:
  "flags wifi_job = Some AUTO_FLAG \<and>
   flags printer_job = Some MANUAL_FLAG \<and>
   siblings printer_job = None \<and>
   get_inhibitor_list quiet_env mixed_suspend_session (plain_job AUTO_JOB_ID) =
     Inr [\<lparr>cause = PENDING_DEP, related_job = Some wifi_job, related_expression = None\<rparr>,
          \<lparr>cause = PENDING_DEP, related_job = Some printer_job, related_expression = None\<rparr>] \<and>
   get_inhibitor_list quiet_env
     (mixed_suspend_session
        \<lparr>job_state_map :=
           AList.update (job_id wifi_job)
             \<lparr>job = wifi_job, result = \<lparr>outcome = OUTCOME_PASS, io_log = []\<rparr>,
               readiness_inhibitor_list = []\<rparr>
             (job_state_map mixed_suspend_session)\<rparr>)
     (plain_job AUTO_JOB_ID) =
     Inr [\<lparr>cause = PENDING_DEP, related_job = Some printer_job, related_expression = None\<rparr>]"
  by (simp add: get_inhibitor_list_def resource_inhibitors_def get_suspend_inhibitor_list_def
      suspend_inhibitor_step_def job_state_of_def suspend_example_defs)

text \<open>
  The same holds for siblings: the id of the manual checkpoint is the beginning of the id
  of the automatic one, so that a sibling that depends on the automatic checkpoint is
  found by the test for the manual checkpoint.
\<close>

lemma auto_sibling_inhibits_manual_checkpoint:
  "get_inhibitor_list quiet_env manual_suspend_session (plain_job MANUAL_JOB_ID) =
     Inr [\<lparr>cause = PENDING_DEP, related_job = Some printer_job, related_expression = None\<rparr>,
          \<lparr>cause = PENDING_DEP, related_job = Some dock_job, related_expression = None\<rparr>]"
  by (simp add: get_inhibitor_list_def resource_inhibitors_def get_suspend_inhibitor_list_def
      suspend_inhibitor_step_def job_state_of_def suspend_example_defs)

subsection \<open>When the inhibitor list is returned\<close>

text \<open>
  \<open>get_inhibitor_list\<close> returns when the job state map holds the ids that the job
  declares, the resource ids of the expression that fails or cannot be evaluated, and, for
  a suspend checkpoint job, the ids of the jobs of its job states.
\<close>

lemma for_each_total:
  "(\<And>x. x \<in> set xs \<Longrightarrow> \<exists>ys. body x = Inr ys) \<Longrightarrow> \<exists>zs. for_each body xs = Inr zs"
proof (induction xs)
  case Nil
  show ?case by simp
next
  case (Cons x xs)
  from Cons.prems [of x] obtain ys where "body x = Inr ys" by auto
  moreover from Cons.IH Cons.prems obtain zs where "for_each body xs = Inr zs" by auto
  ultimately show ?case by simp
qed

lemma job_state_of_known:
  "some_id \<in> fst ` set (job_state_map s) \<Longrightarrow> \<exists>st. job_state_of s some_id = Inr st"
  by (cases "map_of (job_state_map s) some_id")
     (auto simp: job_state_of_def map_of_eq_None_iff)

lemma get_inhibitor_list_returns:
  assumes resources:
      "\<And>prog e. resource_program J = Some prog \<Longrightarrow>
         evaluate_or_raise ev prog (resource_map s) = ExpressionCannotEvaluateError e \<or>
         evaluate_or_raise ev prog (resource_map s) = ExpressionFailedError e \<Longrightarrow>
         set (resource_id_list e) \<subseteq> fst ` set (job_state_map s)"
    and declared:
      "set (depends J) \<union> set (after J) \<union> set (salvage J) \<subseteq> fst ` set (job_state_map s)"
    and keys:
      "job_id J = AUTO_JOB_ID \<or> job_id J = MANUAL_JOB_ID \<Longrightarrow>
       job_id ` job ` snd ` set (job_state_map s) \<subseteq> fst ` set (job_state_map s)"
  shows "\<exists>inhibitors. get_inhibitor_list ev s J = Inr inhibitors"
proof -
  have from_resources: "\<exists>xs. resource_inhibitors ev s J = Inr xs"
  proof (cases "resource_program J")
    case None
    then show ?thesis by (simp add: resource_inhibitors_def)
  next
    case (Some prog)
    show ?thesis
    proof (cases "evaluate_or_raise ev prog (resource_map s)")
      case Evaluated
      with Some show ?thesis by (simp add: resource_inhibitors_def)
    next
      case (ExpressionCannotEvaluateError e)
      with resources [OF Some, of e]
      have known: "set (resource_id_list e) \<subseteq> fst ` set (job_state_map s)" by simp
      have "\<exists>zs. for_each (pending_resource_step s e) (resource_id_list e) = Inr zs"
      proof (rule for_each_total)
        fix x assume "x \<in> set (resource_id_list e)"
        with known job_state_of_known [of x s] obtain st where "job_state_of s x = Inr st"
          by auto
        then show "\<exists>ys. pending_resource_step s e x = Inr ys"
          by (simp add: pending_resource_step_def)
      qed
      with Some ExpressionCannotEvaluateError show ?thesis
        by (simp add: resource_inhibitors_def)
    next
      case (ExpressionFailedError e)
      with resources [OF Some, of e]
      have known: "set (resource_id_list e) \<subseteq> fst ` set (job_state_map s)" by simp
      have "\<exists>zs. for_each (failed_resource_step s e) (resource_id_list e) = Inr zs"
      proof (rule for_each_total)
        fix x assume "x \<in> set (resource_id_list e)"
        with known job_state_of_known [of x s] obtain st where "job_state_of s x = Inr st"
          by auto
        then show "\<exists>ys. failed_resource_step s e x = Inr ys"
          by (simp add: failed_resource_step_def)
      qed
      with Some ExpressionFailedError show ?thesis
        by (simp add: resource_inhibitors_def)
    qed
  qed
  have from_depends:
    "\<exists>zs. for_each (direct_dependency_step s) (sort (remdups (depends J))) = Inr zs"
  proof (rule for_each_total)
    fix x assume "x \<in> set (sort (remdups (depends J)))"
    then have "x \<in> fst ` set (job_state_map s)" using declared by auto
    with job_state_of_known [of x s] obtain st where "job_state_of s x = Inr st"
      by blast
    then show "\<exists>ys. direct_dependency_step s x = Inr ys"
      by (simp add: direct_dependency_step_def)
  qed
  have from_after:
    "\<exists>zs. for_each (after_dependency_step s) (sort (remdups (after J))) = Inr zs"
  proof (rule for_each_total)
    fix x assume "x \<in> set (sort (remdups (after J)))"
    then have "x \<in> fst ` set (job_state_map s)" using declared by auto
    with job_state_of_known [of x s] obtain st where "job_state_of s x = Inr st"
      by blast
    then show "\<exists>ys. after_dependency_step s x = Inr ys"
      by (simp add: after_dependency_step_def)
  qed
  have from_salvage:
    "\<exists>zs. for_each (salvage_dependency_step s) (sort (remdups (salvage J))) = Inr zs"
  proof (rule for_each_total)
    fix x assume "x \<in> set (sort (remdups (salvage J)))"
    then have "x \<in> fst ` set (job_state_map s)" using declared by auto
    with job_state_of_known [of x s] obtain st where "job_state_of s x = Inr st"
      by blast
    then show "\<exists>ys. salvage_dependency_step s x = Inr ys"
      by (simp add: salvage_dependency_step_def)
  qed
  have from_suspend: "\<exists>zs. get_suspend_inhibitor_list s J = Inr zs"
    if checkpoint: "job_id J = AUTO_JOB_ID \<or> job_id J = MANUAL_JOB_ID"
    unfolding get_suspend_inhibitor_list_def Let_def
  proof (rule for_each_total)
    fix x
    assume "x \<in> set (map (\<lambda>(k, state). job state)
                 (filter (\<lambda>(k, state). undesired_inhibitor \<notin> set (readiness_inhibitor_list state))
                    (job_state_map s)))"
    then have "job_id x \<in> job_id ` job ` snd ` set (job_state_map s)" by force
    with keys [OF checkpoint] have "job_id x \<in> fst ` set (job_state_map s)" by blast
    with job_state_of_known [of "job_id x" s] obtain st where
      st: "job_state_of s (job_id x) = Inr st" by auto
    from is_job_impacting_suspend_returns [OF checkpoint, of x]
    obtain b where "is_job_impacting_suspend (job_id J) x = Inr b" by blast
    with st show "\<exists>ys. suspend_inhibitor_step s (job_id J) x = Inr ys"
      by (cases b) (simp_all add: suspend_inhibitor_step_def)
  qed
  show ?thesis
  proof (cases "job_id J = AUTO_JOB_ID \<or> job_id J = MANUAL_JOB_ID")
    case True
    with from_resources from_depends from_after from_salvage from_suspend [OF True]
    show ?thesis
      by (auto simp: get_inhibitor_list_def)
  next
    case False
    with from_resources from_depends from_after from_salvage
    show ?thesis
      by (auto simp: get_inhibitor_list_def)
  qed
qed

subsection \<open>The records of the parser\<close>

text \<open>The parser above never yields a record without a key.\<close>

lemma parse_paragraphs_records_not_empty:
  "record \<in> set (fst (parse_paragraphs lines current)) \<Longrightarrow> data record \<noteq> []"
proof (induction lines arbitrary: current)
  case Nil
  then show ?case by (auto simp: end_of_paragraph_def split: if_splits)
next
  case (Cons line lines)
  show ?case
  proof (cases "strip line = []")
    case True
    obtain records raised where rest: "parse_paragraphs lines [] = (records, raised)"
      by (cases "parse_paragraphs lines []")
    with Cons.prems True have "record \<in> set (end_of_paragraph current) \<or> record \<in> set records"
      by auto
    then show ?thesis
    proof
      assume "record \<in> set (end_of_paragraph current)"
      then show ?thesis by (auto simp: end_of_paragraph_def split: if_splits)
    next
      assume "record \<in> set records"
      with rest Cons.IH [of "[]"] show ?thesis by simp
    qed
  next
    case False
    with Cons.prems Cons.IH show ?thesis
      by (auto split: if_splits)
  qed
qed

end
